theory Spec2Isabelle
  imports Complex_Main "HOL-Library.Sublist"
begin

section \<open>Strings, values, errors and the external hash functions\<close>

text \<open>
  A Python \<open>str\<close> is a sequence of code points; it is modelled as a list of natural
  numbers. \<open>py\<close> turns an ASCII literal of the source into such a string; the Chinese
  message literals of the source are written out as their code points.
\<close>

type_synonym pystr = "nat list"

definition py :: "string \<Rightarrow> pystr" where
  "py s = map of_char s"

text \<open>
  The values that travel in the dictionaries returned by the ledger: strings, integers,
  floats, lists and dictionaries. A dictionary keeps its insertion order and is an
  association list; \<open>dict_get d k\<close> is \<open>d.get(k)\<close> and \<open>k \<in> fst ` set d\<close> is \<open>k in d\<close>.
\<close>

datatype pyval =
    PStr pystr
  | PInt int
  | PFloat real
  | PList "pyval list"
  | PDict "(pystr \<times> pyval) list"

type_synonym pydict = "(pystr \<times> pyval) list"

definition dict_get :: "pydict \<Rightarrow> pystr \<Rightarrow> pyval option" where
  "dict_get d k = map_of d k"

datatype py_error = IndexError | KeyError | RuntimeError | TypeError

text \<open>
  A transaction is the dictionary \<open>{"u": u, "v": v}\<close>.
\<close>

record tx =
  tx_u :: pystr
  tx_v :: pystr

text \<open>
  The header dictionary of \<open>Block.to_dict\<close>, as \<open>Block.hash\<close> serialises it.
\<close>

record header =
  h_height :: int
  h_prev_hash :: pystr
  h_merkle_root :: pystr
  h_timestamp :: real

text \<open>
  \<open>hashlib.sha256\<close> and \<open>json.dumps\<close> belong to the Python library, not to the
  repository; they are parameters of the model. \<open>sha256_hex s\<close> stands for
  \<open>hashlib.sha256(s.encode()).hexdigest()\<close>, \<open>dumps_tx t\<close> and \<open>dumps_header h\<close> for
  \<open>json.dumps(d, sort_keys=True)\<close> on a transaction and on a header dictionary.
  Nothing is assumed about them: every statement below holds for all three functions.
\<close>

record env =
  sha256_hex :: "pystr \<Rightarrow> pystr"
  dumps_tx :: "tx \<Rightarrow> pystr"
  dumps_header :: "header \<Rightarrow> pystr"

section \<open>MerkleTree\<close>

definition hash_transaction :: "env \<Rightarrow> tx \<Rightarrow> pystr" where
  "hash_transaction E t = sha256_hex E (dumps_tx E t)"

definition hash_pair :: "env \<Rightarrow> pystr \<Rightarrow> pystr \<Rightarrow> pystr" where
  "hash_pair E left right = sha256_hex E (left @ right)"

text \<open>
  The inner \<open>for i in range(0, len(current_level), 2)\<close> loop of \<open>build_merkle_root\<close>:
  \<open>i\<close> is the loop variable, \<open>nxt\<close> the list \<open>next_level\<close> built so far.
\<close>

function root_level :: "env \<Rightarrow> pystr list \<Rightarrow> nat \<Rightarrow> pystr list \<Rightarrow> pystr list" where
  "root_level E cur i nxt =
     (if i < length cur then
        (let left = cur ! i;
             right = (if i + 1 < length cur then cur ! (i + 1) else left)
         in root_level E cur (i + 2) (nxt @ [hash_pair E left right]))
      else nxt)"
  by pat_completeness auto
termination
  by (relation "measure (\<lambda>(E, cur, i, nxt). length cur - i)") auto

declare root_level.simps [simp del]

lemma length_root_level:
  "length (root_level E cur i nxt) = length nxt + (length cur - i + 1) div 2"
proof (induction E cur i nxt rule: root_level.induct)
  case (1 E cur i nxt)
  show ?case
  proof (cases "i < length cur")
    case True
    have "length (root_level E cur i nxt) =
          length (root_level E cur (i + 2)
            (nxt @ [hash_pair E (cur ! i) (if i + 1 < length cur then cur ! (i + 1) else cur ! i)]))"
      using True by (subst root_level.simps) (simp add: Let_def)
    also have "\<dots> = length nxt + 1 + (length cur - (i + 2) + 1) div 2"
      using "1.IH" [OF True refl refl] by simp
    also have "\<dots> = length nxt + (length cur - i + 1) div 2"
      using True by arith
    finally show ?thesis .
  next
    case False
    then show ?thesis by (subst root_level.simps) simp
  qed
qed

text \<open>
  The \<open>while len(current_level) > 1\<close> loop of \<open>build_merkle_root\<close>; it returns the
  last \<open>current_level\<close>.
\<close>

function root_loop :: "env \<Rightarrow> pystr list \<Rightarrow> pystr list" where
  "root_loop E cur =
     (if length cur > 1 then root_loop E (root_level E cur 0 []) else cur)"
  by pat_completeness auto
termination
  by (relation "measure (\<lambda>(E, cur). length cur)") (auto simp: length_root_level)

declare root_loop.simps [simp del]

text \<open>
  \<open>build_merkle_root\<close>. The final \<open>current_level[0]\<close> raises \<open>IndexError\<close> on an
  empty list; the model keeps that branch.
\<close>

definition build_merkle_root :: "env \<Rightarrow> tx list \<Rightarrow> py_error + pystr" where
  "build_merkle_root E transactions =
     (if transactions = [] then Inr (sha256_hex E [])
      else (case root_loop E (map (hash_transaction E) transactions) of
              [] \<Rightarrow> Inl IndexError
            | h # _ \<Rightarrow> Inr h))"

text \<open>
  An element \<open>{"hash": h, "position": p}\<close> of a Merkle proof.
\<close>

record proof_element =
  pe_hash :: pystr
  pe_position :: pystr

text \<open>
  The inner loop of \<open>get_merkle_proof\<close>. Its state is the triple of \<open>proof\<close>,
  \<open>current_index\<close> and \<open>next_level\<close>; \<open>current_index\<close> is overwritten inside the loop,
  and the later iterations compare against the new value, as in the source.
\<close>

function proof_level ::
  "env \<Rightarrow> pystr list \<Rightarrow> nat \<Rightarrow> proof_element list \<times> int \<times> pystr list
     \<Rightarrow> proof_element list \<times> int \<times> pystr list" where
  "proof_level E cur i (proof, current_index, nxt) =
     (if i < length cur then
        (let left = cur ! i;
             right = (if i + 1 < length cur then cur ! (i + 1) else left);
             (proof', current_index') =
               (if int i = current_index then
                  (proof @ [\<lparr>pe_hash = right, pe_position = py ''right''\<rparr>], int i div 2)
                else if int i + 1 = current_index then
                  (proof @ [\<lparr>pe_hash = left, pe_position = py ''left''\<rparr>], int i div 2)
                else (proof, current_index))
         in proof_level E cur (i + 2) (proof', current_index', nxt @ [hash_pair E left right]))
      else (proof, current_index, nxt))"
  by pat_completeness auto
termination
  by (relation "measure (\<lambda>(E, cur, i, st). length cur - i)") auto

declare proof_level.simps [simp del]

lemma proof_level_nxt:
  "snd (snd (proof_level E cur i (proof, current_index, nxt))) = root_level E cur i nxt"
proof (induction E cur i nxt arbitrary: "proof" current_index rule: root_level.induct)
  case (1 E cur i nxt)
  show ?case
  proof (cases "i < length cur")
    case True
    show ?thesis
      using "1.IH" [OF True refl refl] True
      by (subst proof_level.simps, subst root_level.simps) (simp add: Let_def)
  next
    case False
    then show ?thesis
      by (subst proof_level.simps, subst root_level.simps) simp
  qed
qed

lemma proof_level_nxt_eq:
  "(p', c', n') = proof_level E cur i (proof, current_index, nxt) \<Longrightarrow>
   n' = root_level E cur i nxt"
  by (metis proof_level_nxt snd_conv)

text \<open>
  The \<open>while\<close> loop of \<open>get_merkle_proof\<close>.
\<close>

function proof_loop ::
  "env \<Rightarrow> pystr list \<Rightarrow> proof_element list \<Rightarrow> int \<Rightarrow> proof_element list" where
  "proof_loop E cur proof current_index =
     (if length cur > 1 then
        (case proof_level E cur 0 (proof, current_index, []) of
           (proof', current_index', nxt) \<Rightarrow> proof_loop E nxt proof' current_index')
      else proof)"
  by pat_completeness auto
termination
  apply (relation "measure (\<lambda>(E, cur, proof, current_index). length cur)")
   apply simp
  apply (auto dest!: proof_level_nxt_eq simp: length_root_level)
  done

declare proof_loop.simps [simp del]

definition get_merkle_proof :: "env \<Rightarrow> tx list \<Rightarrow> int \<Rightarrow> proof_element list" where
  "get_merkle_proof E transactions tx_index =
     (if tx_index < 0 \<or> tx_index \<ge> int (length transactions) then []
      else proof_loop E (map (hash_transaction E) transactions) [] tx_index)"

text \<open>
  \<open>verify_proof\<close>: the \<open>for\<close> loop over the proof, then the comparison with the root.
  Every position other than \<open>"left"\<close> takes the \<open>else\<close> branch.
\<close>

fun verify_fold :: "env \<Rightarrow> pystr \<Rightarrow> proof_element list \<Rightarrow> pystr" where
  "verify_fold E current_hash [] = current_hash"
| "verify_fold E current_hash (proof_element # rest) =
     (let sibling_hash = pe_hash proof_element;
          position = pe_position proof_element
      in verify_fold E
           (if position = py ''left'' then hash_pair E sibling_hash current_hash
            else hash_pair E current_hash sibling_hash) rest)"

definition verify_proof :: "env \<Rightarrow> tx \<Rightarrow> pystr \<Rightarrow> proof_element list \<Rightarrow> bool" where
  "verify_proof E t merkle_root proof =
     (verify_fold E (hash_transaction E t) proof = merkle_root)"

section \<open>Block and Blockchain\<close>

text \<open>
  \<open>Block.__init__\<close>. The argument \<open>timestamp'\<close> is the optional parameter of the
  constructor and \<open>clock\<close> the reading of \<open>time.time()\<close>, which
  \<open>timestamp or time.time()\<close> takes when the parameter is \<open>None\<close> or zero.
\<close>

record block =
  height :: int
  prev_hash :: pystr
  transactions :: "tx list"
  timestamp :: real
  merkle_root :: pystr

definition Block_init ::
  "env \<Rightarrow> int \<Rightarrow> pystr \<Rightarrow> tx list \<Rightarrow> real option \<Rightarrow> real \<Rightarrow> py_error + block" where
  "Block_init E height' prev_hash' transactions' timestamp' clock =
     (case build_merkle_root E transactions' of
        Inl e \<Rightarrow> Inl e
      | Inr mroot \<Rightarrow>
          Inr \<lparr>height = height',
               prev_hash = prev_hash',
               transactions = transactions',
               timestamp = (case timestamp' of
                              None \<Rightarrow> clock
                            | Some t \<Rightarrow> if t = 0 then clock else t),
               merkle_root = mroot\<rparr>)"

definition to_header :: "block \<Rightarrow> header" where
  "to_header b =
     \<lparr>h_height = height b, h_prev_hash = prev_hash b,
      h_merkle_root = merkle_root b, h_timestamp = timestamp b\<rparr>"

definition tx_dict :: "tx \<Rightarrow> pyval" where
  "tx_dict t = PDict [(py ''u'', PStr (tx_u t)), (py ''v'', PStr (tx_v t))]"

definition to_dict :: "block \<Rightarrow> pyval" where
  "to_dict b =
     PDict [(py ''header'',
               PDict [(py ''height'', PInt (height b)),
                      (py ''prev_hash'', PStr (prev_hash b)),
                      (py ''merkle_root'', PStr (merkle_root b)),
                      (py ''timestamp'', PFloat (timestamp b))]),
            (py ''transactions'', PList (map tx_dict (transactions b)))]"

definition block_hash :: "env \<Rightarrow> block \<Rightarrow> pystr" where
  "block_hash E b = sha256_hex E (dumps_header E (to_header b))"

record blockchain =
  chain :: "block list"
  pending_transactions :: "tx list"

definition genesis_tx :: tx where
  "genesis_tx = \<lparr>tx_u = py ''genesis'', tx_v = py ''genesis''\<rparr>"

definition create_genesis_block :: "env \<Rightarrow> real \<Rightarrow> real \<Rightarrow> blockchain \<Rightarrow> py_error + blockchain" where
  "create_genesis_block E t0 clock bc =
     (case Block_init E 0 (replicate 64 (of_char CHR ''0'')) [genesis_tx] (Some t0) clock of
        Inl e \<Rightarrow> Inl e
      | Inr genesis_block \<Rightarrow> Inr (bc\<lparr>chain := chain bc @ [genesis_block]\<rparr>))"

definition Blockchain_init :: "env \<Rightarrow> real \<Rightarrow> real \<Rightarrow> py_error + blockchain" where
  "Blockchain_init E t0 clock =
     create_genesis_block E t0 clock \<lparr>chain = [], pending_transactions = []\<rparr>"

text \<open>
  The message literals of the ledger, as code points:
  \<open>msg_added\<close> is the message of \<open>add_transaction\<close>, \<open>msg_buffer_empty\<close> the message
  of \<open>mine_block\<close> on an empty buffer, \<open>msg_block_created\<close> its message on success,
  \<open>msg_bad_input\<close> the error of the route \<open>/transaction/new\<close>, and \<open>wufa\<close> the
  two-character literal that the route \<open>/block/mine\<close> looks for in the message.
\<close>

definition msg_added :: pystr where
  "msg_added = [0x4EA4, 0x6613, 0x5DF2, 0x6DFB, 0x52A0, 0x5230, 0x7F13, 0x51B2, 0x533A]"

definition msg_buffer_empty :: pystr where
  "msg_buffer_empty =
     [0x7F13, 0x51B2, 0x533A, 0x4E3A, 0x7A7A, 0xFF0C, 0x65E0, 0x6CD5, 0x751F, 0x6210, 0x533A, 0x5757]"

definition msg_block_created :: pystr where
  "msg_block_created = [0x533A, 0x5757, 0x751F, 0x6210, 0x6210, 0x529F]"

definition wufa :: pystr where
  "wufa = [0x65E0, 0x6CD5]"

definition msg_bad_input :: pystr where
  "msg_bad_input =
     [0x65E0, 0x6548, 0x7684, 0x8F93, 0x5165, 0x683C, 0x5F0F, 0xFF0C, 0x9700, 0x8981, 0x5305,
      0x542B, 0x20, 0x27, 0x75, 0x27, 0x20, 0x548C, 0x20, 0x27, 0x76, 0x27, 0x20, 0x5B57, 0x6BB5]"

text \<open>
  \<open>add_transaction\<close> and \<open>mine_block\<close> return the dictionary they build together with
  the new state of the \<open>Blockchain\<close> object.
\<close>

definition add_transaction :: "pystr \<Rightarrow> pystr \<Rightarrow> blockchain \<Rightarrow> pydict \<times> blockchain" where
  "add_transaction u v bc =
     (let transaction = \<lparr>tx_u = u, tx_v = v\<rparr>;
          bc' = bc\<lparr>pending_transactions := pending_transactions bc @ [transaction]\<rparr>
      in ([(py ''message'', PStr msg_added),
           (py ''transaction'', tx_dict transaction),
           (py ''pending_count'', PInt (int (length (pending_transactions bc'))))],
          bc'))"

definition mine_block :: "env \<Rightarrow> real \<Rightarrow> blockchain \<Rightarrow> py_error + pydict \<times> blockchain" where
  "mine_block E clock bc =
     (if pending_transactions bc = [] then
        Inr ([(py ''message'', PStr msg_buffer_empty)], bc)
      else if chain bc = [] then Inl IndexError
      else
        (let last_block = last (chain bc) in
         case Block_init E (height last_block + 1) (block_hash E last_block)
                (pending_transactions bc) None clock of
           Inl e \<Rightarrow> Inl e
         | Inr new_block \<Rightarrow>
             (let tx_count = int (length (pending_transactions bc))
              in Inr ([(py ''message'', PStr msg_block_created),
                       (py ''block'', to_dict new_block),
                       (py ''block_hash'', PStr (block_hash E new_block)),
                       (py ''transactions_count'', PInt tx_count)],
                      bc\<lparr>chain := chain bc @ [new_block], pending_transactions := []\<rparr>))))"

text \<open>
  \<open>get_spv_proof\<close>. \<open>find_tx_index\<close> is the \<open>for i, tx in enumerate(...)\<close> loop with
  its \<open>break\<close>; the returned dictionary has a fixed set of keys and is a record.
\<close>

record spv_proof =
  spv_transaction :: tx
  spv_block_height :: int
  spv_merkle_root :: pystr
  spv_merkle_proof :: "proof_element list"
  spv_tx_index :: nat
  spv_timestamp :: real

fun find_tx_index :: "tx list \<Rightarrow> pystr \<Rightarrow> pystr \<Rightarrow> nat \<Rightarrow> nat option" where
  "find_tx_index [] u v i = None"
| "find_tx_index (t # rest) u v i =
     (if tx_u t = u \<and> tx_v t = v then Some i else find_tx_index rest u v (i + 1))"

definition get_spv_proof :: "env \<Rightarrow> blockchain \<Rightarrow> int \<Rightarrow> pystr \<Rightarrow> pystr \<Rightarrow> spv_proof option" where
  "get_spv_proof E bc block_height u v =
     (if block_height < 0 \<or> block_height \<ge> int (length (chain bc)) then None
      else
        (let block = chain bc ! nat block_height;
             transaction = \<lparr>tx_u = u, tx_v = v\<rparr>
         in case find_tx_index (transactions block) u v 0 of
              None \<Rightarrow> None
            | Some tx_index \<Rightarrow>
                Some \<lparr>spv_transaction = transaction,
                      spv_block_height = block_height,
                      spv_merkle_root = merkle_root block,
                      spv_merkle_proof = get_merkle_proof E (transactions block) (int tx_index),
                      spv_tx_index = tx_index,
                      spv_timestamp = timestamp block\<rparr>))"

subsection \<open>The routes of the ledger\<close>

text \<open>
  A route returns the body of the response and its HTTP status. The global
  \<open>blockchain\<close> object is the state that is passed through.

  \<open>/block/mine\<close>: the status is 400 when the result has a key \<open>"error"\<close> or its message
  contains \<open>wufa\<close>, otherwise 201.
\<close>

definition route_mine_block ::
  "env \<Rightarrow> real \<Rightarrow> blockchain \<Rightarrow> py_error + (pydict \<times> nat) \<times> blockchain" where
  "route_mine_block E clock bc =
     (case mine_block E clock bc of
        Inl e \<Rightarrow> Inl e
      | Inr (result, bc') \<Rightarrow>
          (case (case dict_get result (py ''message'') of None \<Rightarrow> Inr [] | Some (PStr m) \<Rightarrow> Inr m
                 | Some _ \<Rightarrow> Inl TypeError) of
             Inl e \<Rightarrow> Inl e
           | Inr message \<Rightarrow>
               if py ''error'' \<in> fst ` set result \<or> sublist wufa message
               then Inr ((result, 400), bc')
               else Inr ((result, 201), bc')))"

text \<open>
  \<open>/transaction/new\<close>. \<open>data\<close> is the parsed JSON body (\<open>None\<close> when there is none);
  \<open>not data\<close> also holds for the empty dictionary. \<open>str(x)\<close> is the identity on a
  string; on the other values it is Python's own conversion, the parameter \<open>repr\<close>.
\<close>

definition py_str :: "(pyval \<Rightarrow> pystr) \<Rightarrow> pyval \<Rightarrow> pystr" where
  "py_str repr x = (case x of PStr s \<Rightarrow> s | _ \<Rightarrow> repr x)"

definition route_new_transaction ::
  "(pyval \<Rightarrow> pystr) \<Rightarrow> pydict option \<Rightarrow> blockchain \<Rightarrow> py_error + (pydict \<times> nat) \<times> blockchain" where
  "route_new_transaction repr data bc =
     (case data of
        None \<Rightarrow> Inr (([(py ''error'', PStr msg_bad_input)], 400), bc)
      | Some d \<Rightarrow>
          if d = [] \<or> py ''u'' \<notin> fst ` set d \<or> py ''v'' \<notin> fst ` set d
          then Inr (([(py ''error'', PStr msg_bad_input)], 400), bc)
          else
            (case (dict_get d (py ''u''), dict_get d (py ''v'')) of
               (Some a, Some b) \<Rightarrow>
                 (case add_transaction (py_str repr a) (py_str repr b) bc of
                    (result, bc') \<Rightarrow> Inr ((result, 201), bc'))
             | _ \<Rightarrow> Inl KeyError))"

subsection \<open>Sequences of ledger operations\<close>

text \<open>
  A run of the ledger: \<open>Submit u v\<close> calls \<open>add_transaction\<close>, \<open>Mine clock\<close> calls
  \<open>mine_block\<close> when the clock reads \<open>clock\<close>.
\<close>

datatype op = Submit pystr pystr | Mine real

fun apply_op :: "env \<Rightarrow> op \<Rightarrow> blockchain \<Rightarrow> py_error + blockchain" where
  "apply_op E (Submit u v) bc = Inr (snd (add_transaction u v bc))"
| "apply_op E (Mine clock) bc =
     (case mine_block E clock bc of Inl e \<Rightarrow> Inl e | Inr (result, bc') \<Rightarrow> Inr bc')"

fun run :: "env \<Rightarrow> op list \<Rightarrow> blockchain \<Rightarrow> py_error + blockchain" where
  "run E [] bc = Inr bc"
| "run E (x # xs) bc =
     (case apply_op E x bc of Inl e \<Rightarrow> Inl e | Inr bc' \<Rightarrow> run E xs bc')"

definition chain_integrity :: "env \<Rightarrow> blockchain \<Rightarrow> bool" where
  "chain_integrity E bc =
     (\<forall>i \<in> {1..<length (chain bc)}.
        prev_hash (chain bc ! i) = block_hash E (chain bc ! (i - 1)) \<and>
        build_merkle_root E (transactions (chain bc ! i)) = Inr (merkle_root (chain bc ! i)))"

subsection \<open>Auxiliary notions of the proofs\<close>

text \<open>
  \<open>sibling cur k\<close> is the proof element that one level contributes for the node at
  index \<open>k\<close>, and \<open>parent E cur k\<close> the hash of the pair that holds that node.
\<close>

definition sibling :: "pystr list \<Rightarrow> nat \<Rightarrow> proof_element" where
  "sibling cur k =
     (if even k then
        \<lparr>pe_hash = (if k + 1 < length cur then cur ! (k + 1) else cur ! k),
         pe_position = py ''right''\<rparr>
      else \<lparr>pe_hash = cur ! (k - 1), pe_position = py ''left''\<rparr>)"

definition parent :: "env \<Rightarrow> pystr list \<Rightarrow> nat \<Rightarrow> pystr" where
  "parent E cur k =
     hash_pair E (cur ! (2 * (k div 2)))
       (if 2 * (k div 2) + 1 < length cur then cur ! (2 * (k div 2) + 1)
        else cur ! (2 * (k div 2)))"

subsection \<open>A concrete instance for running the model\<close>

text \<open>
  A small stand-in for the external functions, and a few inputs, on which the model is
  evaluated.
\<close>

definition demo_env :: env where
  "demo_env =
     \<lparr>sha256_hex = (\<lambda>s. length s # s),
      dumps_tx = (\<lambda>t. tx_u t @ [58] @ tx_v t),
      dumps_header = (\<lambda>h. h_prev_hash h @ h_merkle_root h)\<rparr>"

definition demo_txs :: "tx list" where
  "demo_txs =
     [\<lparr>tx_u = py ''A'', tx_v = py ''B''\<rparr>,
      \<lparr>tx_u = py ''C'', tx_v = py ''D''\<rparr>,
      \<lparr>tx_u = py ''A'', tx_v = py ''B''\<rparr>]"

definition demo_ops :: "op list" where
  "demo_ops =
     [Submit (py ''A'') (py ''B''), Submit (py ''C'') (py ''D''), Submit (py ''A'') (py ''B''),
      Mine 2, Mine 3, Submit (py ''E'') (py ''F'')]"

definition demo_chain :: blockchain where
  "demo_chain =
     \<lparr>chain =
        [\<lparr>height = 0, prev_hash = replicate 64 48, transactions = [genesis_tx], timestamp = 1,
          merkle_root = hash_transaction demo_env genesis_tx\<rparr>,
         \<lparr>height = 1, prev_hash = [], transactions = demo_txs, timestamp = 2,
          merkle_root = []\<rparr>],
      pending_transactions = []\<rparr>"

section \<open>The pairing group\<close>

text \<open>
  The issuer, the holder and the verifier compute in a pairing group of the \<open>charm\<close>
  library. The library is not part of the sources, so the operations the code calls are the
  fields of a record: \<open>pow1 g z\<close> is \<open>g ** z\<close> in \<open>G1\<close>, \<open>pow2\<close> the same in \<open>G2\<close>,
  \<open>pair\<close> the pairing, \<open>zr_div a b\<close> the quotient \<open>a / b\<close> of two scalars, \<open>hash_zr\<close> is
  \<open>group.hash(_, ZR)\<close>, and the last four fields are \<open>serialize_element\<close> and
  \<open>deserialize_element\<close> (\<open>None\<close> when the library raises). The product of two group elements
  is the multiplication of the type, scalars are added, multiplied and negated in their type.
\<close>

record ('g1, 'g2, 'gt, 'z) pairing_group =
  pow1 :: "'g1 \<Rightarrow> 'z \<Rightarrow> 'g1"
  pow2 :: "'g2 \<Rightarrow> 'z \<Rightarrow> 'g2"
  pair :: "'g1 \<Rightarrow> 'g2 \<Rightarrow> 'gt"
  zr_div :: "'z \<Rightarrow> 'z \<Rightarrow> 'z"
  hash_zr :: "pystr \<Rightarrow> 'z"
  serialize_g1 :: "'g1 \<Rightarrow> pystr"
  serialize_zr :: "'z \<Rightarrow> pystr"
  deserialize_g1 :: "pystr \<Rightarrow> 'g1 option"
  deserialize_zr :: "pystr \<Rightarrow> 'z option"

text \<open>
  The algebra the proofs use: exponentiation is a homomorphism in both arguments, the pairing
  moves an exponent from its left to its right argument, and \<open>a / b\<close> is the quotient in the
  scalar field when \<open>b\<close> is not zero. Nothing is assumed about \<open>1 / 0\<close>, and nothing about
  the hash. \<open>wire_laws\<close> says that deserialising a serialised element gives it back.
\<close>

definition group_laws ::
  "('g1::comm_monoid_mult, 'g2::comm_monoid_mult, 'gt, 'z::field) pairing_group \<Rightarrow> bool" where
  "group_laws G \<longleftrightarrow>
     (\<forall>g a b. pow1 G g (a + b) = pow1 G g a * pow1 G g b) \<and>
     (\<forall>g h a. pow1 G (g * h) a = pow1 G g a * pow1 G h a) \<and>
     (\<forall>g a b. pow1 G (pow1 G g a) b = pow1 G g (a * b)) \<and>
     (\<forall>g. pow1 G g 1 = g) \<and>
     (\<forall>g. pow1 G g 0 = 1) \<and>
     (\<forall>g a b. pow2 G g (a + b) = pow2 G g a * pow2 G g b) \<and>
     (\<forall>a b z. pair G (pow1 G a z) b = pair G a (pow2 G b z)) \<and>
     (\<forall>a b. b \<noteq> 0 \<longrightarrow> zr_div G a b = a / b)"

definition wire_laws ::
  "('g1, 'g2, 'gt, 'z) pairing_group \<Rightarrow> bool" where
  "wire_laws G \<longleftrightarrow>
     (\<forall>g. deserialize_g1 G (serialize_g1 G g) = Some g) \<and>
     (\<forall>z. deserialize_zr G (serialize_zr G z) = Some z)"

section \<open>Issuer\<close>

text \<open>
  The dictionary \<open>PP\<close>: its keys \<open>h0\<close>, ..., \<open>hn\<close> are the partial map \<open>pp_h\<close>. The values
  drawn by \<open>group.random\<close> in \<open>Issuer.setup\<close> and \<open>Issuer.issue\<close> are arguments of the model.
\<close>

record ('g1, 'g2) public_params =
  pp_g1 :: 'g1
  pp_g2 :: 'g2
  pp_pk :: 'g2
  pp_n :: nat
  pp_hp :: 'g1
  pp_h :: "nat \<Rightarrow> 'g1 option"

record ('g1, 'g2, 'z) issuer =
  iss_PP :: "('g1, 'g2) public_params option"
  iss_sk :: "'z option"
  is_setup :: bool

definition Issuer_init :: "('g1, 'g2, 'z) issuer" where
  "Issuer_init = \<lparr>iss_PP = None, iss_sk = None, is_setup = False\<rparr>"

definition issuer_setup ::
  "('g1, 'g2, 'gt, 'z) pairing_group \<Rightarrow> nat \<Rightarrow> 'g1 \<Rightarrow> 'g2 \<Rightarrow> 'z \<Rightarrow> 'g1 \<Rightarrow> (nat \<Rightarrow> 'g1)
     \<Rightarrow> ('g1, 'g2, 'z) issuer" where
  "issuer_setup G n g1 g2 sk hp hs =
     (let pk = pow2 G g2 sk;
          PP = \<lparr>pp_g1 = g1, pp_g2 = g2, pp_pk = pk, pp_n = n, pp_hp = hp,
                pp_h = (\<lambda>i. if i \<le> n then Some (hs i) else None)\<rparr>
      in \<lparr>iss_PP = Some PP, iss_sk = Some sk, is_setup = True\<rparr>)"

text \<open>
  An attribute slot is a dictionary that may hold \<open>value\<close>, \<open>commitment\<close> and \<open>proof\<close>;
  the attribute dictionary maps the key \<open>m\<close>\<open>i\<close> to the slot \<open>i\<close>.
\<close>

record ('g1, 'z) nizk_proof =
  pr_R :: 'g1
  pr_z :: 'z

record ('g1, 'z) attr =
  a_value :: "pystr option"
  a_commitment :: "'g1 option"
  a_proof :: "('g1, 'z) nizk_proof option"

definition verify_nizk ::
  "('g1::comm_monoid_mult, 'g2, 'gt, 'z) pairing_group \<Rightarrow> 'g1 \<Rightarrow> 'g1 \<Rightarrow> ('g1, 'z) nizk_proof \<Rightarrow> bool" where
  "verify_nizk G h_i commitment proof =
     (let R = pr_R proof;
          z = pr_z proof;
          challenge_input = serialize_g1 G h_i @ serialize_g1 G commitment @ serialize_g1 G R;
          c = hash_zr G challenge_input;
          lhs = pow1 G h_i z;
          rhs = pow1 G commitment c * R
      in lhs = rhs)"

record ('g1, 'z) credential =
  cred_A :: 'g1
  cred_x :: 'z
  cred_s :: 'z

text \<open>
  The loop of \<open>Issuer.issue\<close> over \<open>range(1, n + 1)\<close>. \<open>Inr None\<close> is the \<open>return None\<close> of
  the source, \<open>Inl\<close> an exception (a key of \<open>PP\<close> that is absent).
\<close>

fun issue_loop ::
  "('g1::comm_monoid_mult, 'g2, 'gt, 'z) pairing_group \<Rightarrow> ('g1, 'g2) public_params
     \<Rightarrow> (nat \<Rightarrow> ('g1, 'z) attr option) \<Rightarrow> nat list \<Rightarrow> 'g1 \<Rightarrow> py_error + 'g1 option" where
  "issue_loop G PP attributes [] A = Inr (Some A)"
| "issue_loop G PP attributes (i # rest) A =
     (case pp_h PP i of
        None \<Rightarrow> Inl KeyError
      | Some h_i \<Rightarrow>
          (case attributes i of
             None \<Rightarrow> Inr None
           | Some attr \<Rightarrow>
               (case a_value attr of
                  Some v \<Rightarrow>
                    (let m_i = hash_zr G v
                     in issue_loop G PP attributes rest (A * pow1 G h_i m_i))
                | None \<Rightarrow>
                    (case (a_commitment attr, a_proof attr) of
                       (Some commitment, Some proof) \<Rightarrow>
                         if \<not> verify_nizk G h_i commitment proof then Inr None
                         else issue_loop G PP attributes rest (A * commitment)
                     | _ \<Rightarrow> Inr None))))"

definition issue ::
  "('g1::comm_monoid_mult, 'g2, 'gt, 'z::field) pairing_group \<Rightarrow> ('g1, 'g2, 'z) issuer
     \<Rightarrow> (nat \<Rightarrow> ('g1, 'z) attr option) \<Rightarrow> 'z \<Rightarrow> 'z \<Rightarrow> py_error + ('g1, 'z) credential option" where
  "issue G st attributes x s =
     (if \<not> is_setup st then Inr None
      else
        (case iss_PP st of
           None \<Rightarrow> Inl TypeError
         | Some PP \<Rightarrow>
             (case pp_h PP 0 of
                None \<Rightarrow> Inl KeyError
              | Some h0 \<Rightarrow>
                  (case issue_loop G PP attributes [1..<pp_n PP + 1] (pp_g1 PP * pow1 G h0 s) of
                     Inl e \<Rightarrow> Inl e
                   | Inr None \<Rightarrow> Inr None
                   | Inr (Some A) \<Rightarrow>
                       (case iss_sk st of
                          None \<Rightarrow> Inl TypeError
                        | Some sk \<Rightarrow>
                            Inr (Some \<lparr>cred_A = pow1 G A (zr_div G 1 (sk + x)),
                                       cred_x = x, cred_s = s\<rparr>))))))"

subsection \<open>The \<open>/issue\<close> route\<close>

text \<open>
  The body of a request is a JSON value, and so is every slot of its \<open>attributes\<close>
  object. The operations the route applies to them are those of Python: \<open>py_truth\<close> is
  the truth value, \<open>py_in k j\<close> is \<open>k in j\<close> (a key of an object, a substring of a string,
  an element of a list, \<open>TypeError\<close> on anything else), \<open>py_item j k\<close> is \<open>j[k]\<close> for a
  string \<open>k\<close> (\<open>KeyError\<close> on an object without the key, \<open>TypeError\<close> on anything that
  is not an object) and \<open>py_len\<close> is \<open>len\<close>. An object is the list of its members, whose
  keys are distinct.
\<close>

datatype json =
    JNull
  | JBool bool
  | JNum rat
  | JStr pystr
  | JList "json list"
  | JObj "(pystr \<times> json) list"

fun py_truth :: "json \<Rightarrow> bool" where
  "py_truth JNull = False"
| "py_truth (JBool b) = b"
| "py_truth (JNum q) = (q \<noteq> 0)"
| "py_truth (JStr s) = (s \<noteq> [])"
| "py_truth (JList l) = (l \<noteq> [])"
| "py_truth (JObj d) = (d \<noteq> [])"

fun py_in :: "pystr \<Rightarrow> json \<Rightarrow> py_error + bool" where
  "py_in k (JObj d) = Inr (k \<in> set (map fst d))"
| "py_in k (JStr s) = Inr (sublist k s)"
| "py_in k (JList l) = Inr (JStr k \<in> set l)"
| "py_in k JNull = Inl TypeError"
| "py_in k (JBool b) = Inl TypeError"
| "py_in k (JNum q) = Inl TypeError"

fun py_item :: "json \<Rightarrow> pystr \<Rightarrow> py_error + json" where
  "py_item (JObj d) k = (case map_of d k of None \<Rightarrow> Inl KeyError | Some v \<Rightarrow> Inr v)"
| "py_item JNull k = Inl TypeError"
| "py_item (JBool b) k = Inl TypeError"
| "py_item (JNum q) k = Inl TypeError"
| "py_item (JStr s) k = Inl TypeError"
| "py_item (JList l) k = Inl TypeError"

fun py_len :: "json \<Rightarrow> py_error + nat" where
  "py_len (JObj d) = Inr (length d)"
| "py_len (JStr s) = Inr (length s)"
| "py_len (JList l) = Inr (length l)"
| "py_len JNull = Inl TypeError"
| "py_len (JBool b) = Inl TypeError"
| "py_len (JNum q) = Inl TypeError"

text \<open>
  \<open>str_nat\<close> writes a number in decimal, as an f-string does; \<open>key_m i\<close> is the key
  \<open>m\<close>\<open>i\<close>. The error messages of the route are the strings of the source.
\<close>

function str_nat :: "nat \<Rightarrow> pystr" where
  "str_nat n = (if n < 10 then [48 + n] else str_nat (n div 10) @ [48 + n mod 10])"
  by pat_completeness auto
termination
  by (relation "measure id") auto

declare str_nat.simps [simp del]

definition key_m :: "nat \<Rightarrow> pystr" where
  "key_m i = py ''m'' @ str_nat i"

definition msg_not_setup :: pystr where
  "msg_not_setup =
     [0x49, 0x73, 0x73, 0x75, 0x65, 0x72, 0x5C1A, 0x672A, 0x521D, 0x59CB, 0x5316, 0xFF0C, 0x8BF7,
      0x5148, 0x8C03, 0x7528, 0x20, 0x2F, 0x73, 0x65, 0x74, 0x75, 0x70]"

definition msg_need_attributes :: pystr where
  "msg_need_attributes =
     [0x9700, 0x8981, 0x63D0, 0x4F9B, 0x20, 0x27, 0x61, 0x74, 0x74, 0x72, 0x69, 0x62, 0x75, 0x74,
      0x65, 0x73, 0x27, 0x20, 0x5B57, 0x6BB5]"

definition msg_count :: "nat \<Rightarrow> nat \<Rightarrow> pystr" where
  "msg_count n k =
     [0x5C5E, 0x6027, 0x6570, 0x91CF, 0x4E0D, 0x5339, 0x914D, 0xFF0C, 0x671F, 0x671B, 0x20]
       @ str_nat n @ [0xFF0C, 0x6536, 0x5230, 0x20] @ str_nat k"

definition msg_missing :: "pystr \<Rightarrow> pystr" where
  "msg_missing key = [0x7F3A, 0x5C11, 0x5C5E, 0x6027, 0x20] @ key"

definition msg_deserialize :: "pystr \<Rightarrow> pystr \<Rightarrow> pystr" where
  "msg_deserialize key e =
     [0x5C5E, 0x6027, 0x20] @ key
       @ [0x20, 0x53CD, 0x5E8F, 0x5217, 0x5316, 0x5931, 0x8D25, 0x3A, 0x20] @ e"

definition msg_format :: "pystr \<Rightarrow> pystr" where
  "msg_format key =
     [0x5C5E, 0x6027, 0x20] @ key
       @ [0x20, 0x683C, 0x5F0F, 0x9519, 0x8BEF, 0xFF0C, 0x9700, 0x8981, 0x20, 0x27, 0x76, 0x61,
          0x6C, 0x75, 0x65, 0x27, 0x20, 0x6216, 0x20, 0x27, 0x63, 0x6F, 0x6D, 0x6D, 0x69, 0x74,
          0x6D, 0x65, 0x6E, 0x74, 0x27, 0x2B, 0x27, 0x70, 0x72, 0x6F, 0x6F, 0x66, 0x27]"

definition msg_failed :: pystr where
  "msg_failed =
     [0x51ED, 0x8BC1, 0x9881, 0x53D1, 0x5931, 0x8D25, 0xFF0C, 0x96F6, 0x77E5, 0x8BC6, 0x8BC1,
      0x660E, 0x9A8C, 0x8BC1, 0x4E0D, 0x901A, 0x8FC7, 0x6216, 0x53C2, 0x6570, 0x9519, 0x8BEF]"

text \<open>
  A slot as the route stores it: the \<open>value\<close> as it came, or the deserialised commitment
  and proof. \<open>try_blind\<close> is the body of the \<open>try\<close>: \<open>None\<close> when one of its statements
  raises (a key that is absent, a field that is not a string, a string the library does not
  deserialise). \<open>exc_str\<close> gives the text of that exception, which the message quotes.
  \<open>cred_payload\<close> is the \<open>credential\<close> member of the body of a success.
\<close>

record ('g1, 'z) json_attr =
  ja_value :: "json option"
  ja_commitment :: "'g1 option"
  ja_proof :: "('g1, 'z) nizk_proof option"

record cred_payload =
  cp_A :: pystr
  cp_x :: pystr
  cp_s :: pystr

definition deserialize_json_g1 ::
  "('g1, 'g2, 'gt, 'z) pairing_group \<Rightarrow> json \<Rightarrow> 'g1 option" where
  "deserialize_json_g1 G j = (case j of JStr s \<Rightarrow> deserialize_g1 G s | _ \<Rightarrow> None)"

definition deserialize_json_zr ::
  "('g1, 'g2, 'gt, 'z) pairing_group \<Rightarrow> json \<Rightarrow> 'z option" where
  "deserialize_json_zr G j = (case j of JStr s \<Rightarrow> deserialize_zr G s | _ \<Rightarrow> None)"

definition try_blind ::
  "('g1, 'g2, 'gt, 'z) pairing_group \<Rightarrow> json \<Rightarrow> ('g1, 'z) json_attr option" where
  "try_blind G attr =
     (case py_item attr (py ''commitment'') of
        Inl e \<Rightarrow> None
      | Inr cj \<Rightarrow>
     (case deserialize_json_g1 G cj of
        None \<Rightarrow> None
      | Some commitment \<Rightarrow>
     (case py_item attr (py ''proof'') of
        Inl e \<Rightarrow> None
      | Inr pj \<Rightarrow>
     (case py_item pj (py ''R'') of
        Inl e \<Rightarrow> None
      | Inr rj \<Rightarrow>
     (case deserialize_json_g1 G rj of
        None \<Rightarrow> None
      | Some R \<Rightarrow>
     (case py_item pj (py ''z'') of
        Inl e \<Rightarrow> None
      | Inr zj \<Rightarrow>
     (case deserialize_json_zr G zj of
        None \<Rightarrow> None
      | Some z \<Rightarrow>
          Some \<lparr>ja_value = None, ja_commitment = Some commitment,
                ja_proof = Some \<lparr>pr_R = R, pr_z = z\<rparr>\<rparr>)))))))"

definition deserialize_attr ::
  "('g1, 'g2, 'gt, 'z) pairing_group \<Rightarrow> (json \<Rightarrow> pystr) \<Rightarrow> pystr \<Rightarrow> json
     \<Rightarrow> py_error + (pystr + ('g1, 'z) json_attr)" where
  "deserialize_attr G exc_str key attr =
     (case py_in (py ''value'') attr of
        Inl e \<Rightarrow> Inl e
      | Inr has_value \<Rightarrow>
          if has_value then
            (case py_item attr (py ''value'') of
               Inl e \<Rightarrow> Inl e
             | Inr v \<Rightarrow> Inr (Inr \<lparr>ja_value = Some v, ja_commitment = None, ja_proof = None\<rparr>))
          else
            (case py_in (py ''commitment'') attr of
               Inl e \<Rightarrow> Inl e
             | Inr has_commitment \<Rightarrow>
                 if \<not> has_commitment then Inr (Inl (msg_format key))
                 else
                   (case py_in (py ''proof'') attr of
                      Inl e \<Rightarrow> Inl e
                    | Inr has_proof \<Rightarrow>
                        if \<not> has_proof then Inr (Inl (msg_format key))
                        else
                          (case try_blind G attr of
                             None \<Rightarrow> Inr (Inl (msg_deserialize key (exc_str attr)))
                           | Some a \<Rightarrow> Inr (Inr a)))))"

fun deserialize_attrs ::
  "('g1, 'g2, 'gt, 'z) pairing_group \<Rightarrow> (json \<Rightarrow> pystr) \<Rightarrow> json \<Rightarrow> nat list
     \<Rightarrow> (nat \<Rightarrow> ('g1, 'z) json_attr option)
     \<Rightarrow> py_error + (pystr + (nat \<Rightarrow> ('g1, 'z) json_attr option))" where
  "deserialize_attrs G exc_str raw_attrs [] attributes = Inr (Inr attributes)"
| "deserialize_attrs G exc_str raw_attrs (i # rest) attributes =
     (let key = key_m i
      in case py_in key raw_attrs of
           Inl e \<Rightarrow> Inl e
         | Inr present \<Rightarrow>
             if \<not> present then Inr (Inl (msg_missing key))
             else
               (case py_item raw_attrs key of
                  Inl e \<Rightarrow> Inl e
                | Inr attr \<Rightarrow>
                    (case deserialize_attr G exc_str key attr of
                       Inl e \<Rightarrow> Inl e
                     | Inr (Inl msg) \<Rightarrow> Inr (Inl msg)
                     | Inr (Inr a) \<Rightarrow>
                         deserialize_attrs G exc_str raw_attrs rest (attributes(i \<mapsto> a)))))"

text \<open>
  \<open>Issuer.issue\<close> hashes \<open>attr["value"]\<close> with \<open>group.hash\<close>, and its model takes the
  string its documentation asks for. A request in which some \<open>value\<close> is not a string
  leaves that type at the call, and what the library's hash does with it is not in the
  sources: the model lets the request raise there.
\<close>

definition issue_attr :: "('g1, 'z) json_attr \<Rightarrow> ('g1, 'z) attr option" where
  "issue_attr a =
     (case ja_value a of
        None \<Rightarrow>
          Some \<lparr>a_value = None, a_commitment = ja_commitment a, a_proof = ja_proof a\<rparr>
      | Some (JStr s) \<Rightarrow>
          Some \<lparr>a_value = Some s, a_commitment = ja_commitment a, a_proof = ja_proof a\<rparr>
      | Some _ \<Rightarrow> None)"

definition string_values :: "(nat \<Rightarrow> ('g1, 'z) json_attr option) \<Rightarrow> nat \<Rightarrow> bool" where
  "string_values attributes n =
     list_all (\<lambda>i. case attributes i of None \<Rightarrow> True | Some a \<Rightarrow> issue_attr a \<noteq> None)
       [1..<n + 1]"

definition issue_attrs ::
  "(nat \<Rightarrow> ('g1, 'z) json_attr option) \<Rightarrow> nat \<Rightarrow> ('g1, 'z) attr option" where
  "issue_attrs attributes i = Option.bind (attributes i) issue_attr"

definition route_issue ::
  "('g1::comm_monoid_mult, 'g2, 'gt, 'z::field) pairing_group \<Rightarrow> (json \<Rightarrow> pystr)
     \<Rightarrow> ('g1, 'g2, 'z) issuer \<Rightarrow> json \<Rightarrow> 'z \<Rightarrow> 'z
     \<Rightarrow> py_error + (pystr + cred_payload) \<times> nat" where
  "route_issue G exc_str st data x s =
     (if \<not> is_setup st then Inr (Inl msg_not_setup, 400)
      else if \<not> py_truth data then Inr (Inl msg_need_attributes, 400)
      else
        (case py_in (py ''attributes'') data of
           Inl e \<Rightarrow> Inl e
         | Inr has_attributes \<Rightarrow>
             if \<not> has_attributes then Inr (Inl msg_need_attributes, 400)
             else
        (case py_item data (py ''attributes'') of
           Inl e \<Rightarrow> Inl e
         | Inr raw_attrs \<Rightarrow>
        (case py_len raw_attrs of
           Inl e \<Rightarrow> Inl e
         | Inr len \<Rightarrow>
        (case iss_PP st of
           None \<Rightarrow> Inl TypeError
         | Some PP \<Rightarrow>
             if len \<noteq> pp_n PP then Inr (Inl (msg_count (pp_n PP) len), 400)
             else
               (case deserialize_attrs G exc_str raw_attrs [1..<pp_n PP + 1] Map.empty of
                  Inl e \<Rightarrow> Inl e
                | Inr (Inl msg) \<Rightarrow> Inr (Inl msg, 400)
                | Inr (Inr attributes) \<Rightarrow>
                    if \<not> string_values attributes (pp_n PP) then Inl TypeError
                    else
                      (case issue G st (issue_attrs attributes) x s of
                         Inl e \<Rightarrow> Inl e
                       | Inr None \<Rightarrow> Inr (Inl msg_failed, 400)
                       | Inr (Some credential) \<Rightarrow>
                           Inr (Inr \<lparr>cp_A = serialize_g1 G (cred_A credential),
                                     cp_x = serialize_zr G (cred_x credential),
                                     cp_s = serialize_zr G (cred_s credential)\<rparr>,
                                201))))))))"

section \<open>Holder\<close>

record 'g1 did =
  did_u :: 'g1
  did_v :: 'g1

record ('g1, 'g2, 'z) user =
  u_PP :: "('g1, 'g2) public_params"
  u_attributes :: "(nat \<Rightarrow> pystr option) option"
  u_credential :: "('g1, 'z) credential option"
  u_did :: "'g1 did option"

definition generate_did ::
  "('g1, 'g2, 'gt, 'z) pairing_group \<Rightarrow> 'g1 \<Rightarrow> ('g1, 'g2, 'z) user
     \<Rightarrow> py_error + 'g1 did \<times> ('g1, 'g2, 'z) user" where
  "generate_did G v_random usr =
     (case u_credential usr of
        None \<Rightarrow> Inl RuntimeError
      | Some credential \<Rightarrow>
          (let s = cred_s credential;
               v = v_random;
               u = pow1 G v s;
               d = \<lparr>did_u = u, did_v = v\<rparr>
           in Inr (d, usr\<lparr>u_did := Some d\<rparr>)))"

text \<open>
  The random scalars of \<open>User.build_identity_proof\<close>, and the JSON payload it returns.
\<close>

record ('g1, 'z) randomness =
  rnd_v :: 'g1
  rnd_r1 :: 'z
  rnd_k_x :: 'z
  rnd_k_r1 :: 'z
  rnd_k_s_prime :: 'z
  rnd_k_s :: 'z
  rnd_k_m_primes :: "nat \<Rightarrow> 'z"

record proof_payload =
  pl_disclosed_attrs :: "(nat \<times> pystr) list"
  pl_did_u :: pystr
  pl_did_v :: pystr
  pl_A_prime :: pystr
  pl_A_bar :: pystr
  pl_c :: pystr
  pl_z_x :: pystr
  pl_z_r1 :: pystr
  pl_z_s_prime :: pystr
  pl_z_s :: pystr
  pl_R3 :: pystr
  pl_z_hidden :: "(nat \<times> pystr) list"

text \<open>
  The loops of \<open>build_identity_proof\<close>, one function each, in the order of the source.
\<close>

fun messages_loop ::
  "('g1, 'g2, 'gt, 'z) pairing_group \<Rightarrow> (nat \<Rightarrow> pystr option) \<Rightarrow> nat list
     \<Rightarrow> (nat \<Rightarrow> 'z option) \<Rightarrow> py_error + (nat \<Rightarrow> 'z option)" where
  "messages_loop G attributes [] messages = Inr messages"
| "messages_loop G attributes (i # rest) messages =
     (case attributes i of
        None \<Rightarrow> Inl RuntimeError
      | Some a \<Rightarrow> messages_loop G attributes rest (messages(i \<mapsto> hash_zr G a)))"

fun commit_loop ::
  "('g1::comm_monoid_mult, 'g2, 'gt, 'z) pairing_group \<Rightarrow> ('g1, 'g2) public_params
     \<Rightarrow> (nat \<Rightarrow> 'z option) \<Rightarrow> nat list \<Rightarrow> 'g1 \<Rightarrow> py_error + 'g1" where
  "commit_loop G PP messages [] B = Inr B"
| "commit_loop G PP messages (i # rest) B =
     (case pp_h PP i of
        None \<Rightarrow> Inl KeyError
      | Some h_i \<Rightarrow>
          (case messages i of
             None \<Rightarrow> Inl KeyError
           | Some m_i \<Rightarrow> commit_loop G PP messages rest (B * pow1 G h_i m_i)))"

fun m_primes_loop ::
  "(nat \<Rightarrow> 'z::times option) \<Rightarrow> 'z \<Rightarrow> nat list \<Rightarrow> (nat \<Rightarrow> 'z option)
     \<Rightarrow> py_error + (nat \<Rightarrow> 'z option)" where
  "m_primes_loop messages r1 [] m_primes = Inr m_primes"
| "m_primes_loop messages r1 (i # rest) m_primes =
     (case messages i of
        None \<Rightarrow> Inl KeyError
      | Some m_i \<Rightarrow> m_primes_loop messages r1 rest (m_primes(i \<mapsto> m_i * r1)))"

fun hidden_loop ::
  "('g1::comm_monoid_mult, 'g2, 'gt, 'z) pairing_group \<Rightarrow> ('g1, 'g2) public_params
     \<Rightarrow> (nat \<Rightarrow> 'z) \<Rightarrow> nat list \<Rightarrow> 'g1 \<Rightarrow> py_error + 'g1" where
  "hidden_loop G PP k_m_primes [] T = Inr T"
| "hidden_loop G PP k_m_primes (i # rest) T =
     (case pp_h PP i of
        None \<Rightarrow> Inl KeyError
      | Some h_i \<Rightarrow> hidden_loop G PP k_m_primes rest (T * pow1 G h_i (k_m_primes i)))"

fun z_hidden_loop ::
  "(nat \<Rightarrow> 'z) \<Rightarrow> (nat \<Rightarrow> 'z::{plus,times} option) \<Rightarrow> 'z \<Rightarrow> nat list \<Rightarrow> (nat \<times> 'z) list
     \<Rightarrow> py_error + (nat \<times> 'z) list" where
  "z_hidden_loop k_m_primes m_primes c [] z_hidden = Inr z_hidden"
| "z_hidden_loop k_m_primes m_primes c (i # rest) z_hidden =
     (case m_primes i of
        None \<Rightarrow> Inl KeyError
      | Some mp \<Rightarrow>
          z_hidden_loop k_m_primes m_primes c rest (z_hidden @ [(i, k_m_primes i + c * mp)]))"

fun disclosed_loop ::
  "(nat \<Rightarrow> pystr option) \<Rightarrow> nat list \<Rightarrow> (nat \<times> pystr) list \<Rightarrow> py_error + (nat \<times> pystr) list" where
  "disclosed_loop attributes [] acc = Inr acc"
| "disclosed_loop attributes (j # rest) acc =
     (case attributes j of
        None \<Rightarrow> Inl KeyError
      | Some a \<Rightarrow> disclosed_loop attributes rest (acc @ [(j, a)]))"

definition build_identity_proof ::
  "('g1::comm_monoid_mult, 'g2, 'gt, 'z::field) pairing_group \<Rightarrow> ('g1, 'z) randomness
     \<Rightarrow> nat list \<Rightarrow> ('g1, 'g2, 'z) user \<Rightarrow> py_error + proof_payload \<times> ('g1, 'g2, 'z) user" where
  "build_identity_proof G rnd disclosed_indices usr0 =
     (case (u_credential usr0, u_attributes usr0) of
        (Some credential, Some attributes) \<Rightarrow>
          (case (case u_did usr0 of
                   None \<Rightarrow> generate_did G (rnd_v rnd) usr0
                 | Some d \<Rightarrow> Inr (d, usr0)) of
             Inl e \<Rightarrow> Inl e
           | Inr (d, usr) \<Rightarrow>
          (let PP = u_PP usr;
               A = cred_A credential;
               x = cred_x credential;
               s = cred_s credential;
               n = pp_n PP;
               did_u_for_verifier = did_v d;
               did_v_for_verifier = did_u d
           in
           case messages_loop G attributes [1..<n + 1] Map.empty of
             Inl e \<Rightarrow> Inl e
           | Inr messages \<Rightarrow>
          (let hidden_indices = filter (\<lambda>i. i \<notin> set disclosed_indices) [1..<n + 1];
               r1 = rnd_r1 rnd;
               A_prime = pow1 G A r1
           in
           case pp_h PP 0 of
             None \<Rightarrow> Inl KeyError
           | Some h0 \<Rightarrow>
          (case commit_loop G PP messages [1..<n + 1] (pp_g1 PP * pow1 G h0 s) of
             Inl e \<Rightarrow> Inl e
           | Inr B \<Rightarrow>
          (let A_bar = pow1 G A_prime (- x) * pow1 G B r1;
               s_prime = s * r1
           in
           case m_primes_loop messages r1 hidden_indices Map.empty of
             Inl e \<Rightarrow> Inl e
           | Inr m_primes \<Rightarrow>
          (let k_x = rnd_k_x rnd;
               k_r1 = rnd_k_r1 rnd;
               k_s_prime = rnd_k_s_prime rnd;
               k_s = rnd_k_s rnd;
               k_m_primes = rnd_k_m_primes rnd
           in
           case commit_loop G PP messages disclosed_indices (pp_g1 PP) of
             Inl e \<Rightarrow> Inl e
           | Inr B_D \<Rightarrow>
          (case hidden_loop G PP k_m_primes hidden_indices
                  (pow1 G A_prime (- k_x) * pow1 G B_D k_r1 * pow1 G h0 k_s_prime) of
             Inl e \<Rightarrow> Inl e
           | Inr T \<Rightarrow>
          (let R3 = pow1 G did_u_for_verifier k_s;
               challenge_input =
                 serialize_g1 G A_prime @ serialize_g1 G A_bar @ serialize_g1 G T
                   @ serialize_g1 G R3;
               c = hash_zr G challenge_input;
               z_x = k_x + c * x;
               z_r1 = k_r1 + c * r1;
               z_s_prime = k_s_prime + c * s_prime;
               z_s = k_s + c * s
           in
           case z_hidden_loop k_m_primes m_primes c hidden_indices [] of
             Inl e \<Rightarrow> Inl e
           | Inr z_hidden \<Rightarrow>
          (case disclosed_loop attributes disclosed_indices [] of
             Inl e \<Rightarrow> Inl e
           | Inr disclosed_attrs \<Rightarrow>
               Inr (\<lparr>pl_disclosed_attrs = disclosed_attrs,
                     pl_did_u = serialize_g1 G did_u_for_verifier,
                     pl_did_v = serialize_g1 G did_v_for_verifier,
                     pl_A_prime = serialize_g1 G A_prime,
                     pl_A_bar = serialize_g1 G A_bar,
                     pl_c = serialize_zr G c,
                     pl_z_x = serialize_zr G z_x,
                     pl_z_r1 = serialize_zr G z_r1,
                     pl_z_s_prime = serialize_zr G z_s_prime,
                     pl_z_s = serialize_zr G z_s,
                     pl_R3 = serialize_g1 G R3,
                     pl_z_hidden = map (\<lambda>(k, v). (k, serialize_zr G v)) z_hidden\<rparr>,
                    usr))))))))))
      | _ \<Rightarrow> Inl RuntimeError)"

section \<open>Verifier\<close>

record ('g1, 'g2) verifier =
  v_PP :: "('g1, 'g2) public_params option"
  v_policy :: "(nat \<times> pystr) list option"
  v_is_setup :: bool

definition Verifier_init :: "('g1, 'g2) verifier" where
  "Verifier_init = \<lparr>v_PP = None, v_policy = None, v_is_setup = False\<rparr>"

definition verifier_setup :: "('g1, 'g2) public_params \<Rightarrow> ('g1, 'g2) verifier \<Rightarrow> ('g1, 'g2) verifier" where
  "verifier_setup PP V = V\<lparr>v_PP := Some PP, v_is_setup := True\<rparr>"

definition set_policy :: "(nat \<times> pystr) list \<Rightarrow> ('g1, 'g2) verifier \<Rightarrow> ('g1, 'g2) verifier" where
  "set_policy policy V = V\<lparr>v_policy := Some policy\<rparr>"

record ('g1, 'z) identity_proof =
  p_disclosed_attrs :: "(nat \<times> pystr) list"
  p_did_u :: 'g1
  p_did_v :: 'g1
  p_A_prime :: 'g1
  p_A_bar :: 'g1
  p_c :: 'z
  p_z_x :: 'z
  p_z_r1 :: 'z
  p_z_s_prime :: 'z
  p_z_s :: 'z
  p_R3 :: 'g1
  p_z_hidden :: "(nat \<times> 'z) list"

datatype verify_message =
    M_not_setup
  | M_no_policy
  | M_policy_missing nat
  | M_policy_mismatch nat pystr pystr
  | M_pairing_failed
  | M_schnorr_failed
  | M_did_failed
  | M_ok

record verify_result =
  valid :: bool
  message :: verify_message

text \<open>
  \<open>Verifier.verify\<close>: the policy check, the pairing check, the recomputation of the Schnorr
  challenge, and the DID check, each with its own message.
\<close>

fun policy_loop :: "(nat \<times> pystr) list \<Rightarrow> (nat \<times> pystr) list \<Rightarrow> verify_result option" where
  "policy_loop disclosed_attrs [] = None"
| "policy_loop disclosed_attrs ((attr_key, required_value) # rest) =
     (case map_of disclosed_attrs attr_key of
        None \<Rightarrow> Some \<lparr>valid = False, message = M_policy_missing attr_key\<rparr>
      | Some a \<Rightarrow>
          if a \<noteq> required_value
          then Some \<lparr>valid = False, message = M_policy_mismatch attr_key required_value a\<rparr>
          else policy_loop disclosed_attrs rest)"

fun disclosed_commit_loop ::
  "('g1::comm_monoid_mult, 'g2, 'gt, 'z) pairing_group \<Rightarrow> ('g1, 'g2) public_params
     \<Rightarrow> (nat \<times> pystr) list \<Rightarrow> 'g1 \<Rightarrow> py_error + 'g1" where
  "disclosed_commit_loop G PP [] B_D = Inr B_D"
| "disclosed_commit_loop G PP ((i, attr_value) # rest) B_D =
     (case pp_h PP i of
        None \<Rightarrow> Inl KeyError
      | Some h_i \<Rightarrow>
          (let m_j = hash_zr G attr_value
           in disclosed_commit_loop G PP rest (B_D * pow1 G h_i m_j)))"

fun hidden_response_loop ::
  "('g1::comm_monoid_mult, 'g2, 'gt, 'z) pairing_group \<Rightarrow> ('g1, 'g2) public_params
     \<Rightarrow> (nat \<times> 'z) list \<Rightarrow> 'g1 \<Rightarrow> py_error + 'g1" where
  "hidden_response_loop G PP [] T_prime = Inr T_prime"
| "hidden_response_loop G PP ((i, z_mi) # rest) T_prime =
     (case pp_h PP i of
        None \<Rightarrow> Inl KeyError
      | Some h_i \<Rightarrow> hidden_response_loop G PP rest (T_prime * pow1 G h_i z_mi))"

definition verify ::
  "('g1::comm_monoid_mult, 'g2, 'gt, 'z::field) pairing_group \<Rightarrow> ('g1, 'g2) verifier
     \<Rightarrow> ('g1, 'z) identity_proof \<Rightarrow> py_error + verify_result" where
  "verify G V proof =
     (if \<not> v_is_setup V then Inr \<lparr>valid = False, message = M_not_setup\<rparr>
      else
        (case v_policy V of
           None \<Rightarrow> Inr \<lparr>valid = False, message = M_no_policy\<rparr>
         | Some policy \<Rightarrow>
        (case v_PP V of
           None \<Rightarrow> Inl TypeError
         | Some PP \<Rightarrow>
        (let disclosed_attrs = p_disclosed_attrs proof
         in
         case policy_loop disclosed_attrs policy of
           Some failure \<Rightarrow> Inr failure
         | None \<Rightarrow>
        (let A_prime = p_A_prime proof;
             A_bar = p_A_bar proof;
             lhs = pair G A_bar (pp_g2 PP);
             rhs = pair G A_prime (pp_pk PP)
         in
         if lhs \<noteq> rhs then Inr \<lparr>valid = False, message = M_pairing_failed\<rparr>
         else
        (let c = p_c proof;
             z_x = p_z_x proof;
             z_r1 = p_z_r1 proof;
             z_s_prime = p_z_s_prime proof;
             z_s = p_z_s proof;
             z_hidden = p_z_hidden proof;
             R3 = p_R3 proof;
             u = p_did_u proof;
             v = p_did_v proof
         in
         case disclosed_commit_loop G PP disclosed_attrs (pp_g1 PP) of
           Inl e \<Rightarrow> Inl e
         | Inr B_D \<Rightarrow>
        (case pp_h PP 0 of
           None \<Rightarrow> Inl KeyError
         | Some h0 \<Rightarrow>
        (case hidden_response_loop G PP z_hidden
                (pow1 G A_prime (- z_x) * pow1 G B_D z_r1 * pow1 G h0 z_s_prime) of
           Inl e \<Rightarrow> Inl e
         | Inr T1 \<Rightarrow>
        (let T_prime = T1 * pow1 G A_bar (- c);
             challenge_input =
               serialize_g1 G A_prime @ serialize_g1 G A_bar @ serialize_g1 G T_prime
                 @ serialize_g1 G R3;
             c_prime = hash_zr G challenge_input
         in
         if c \<noteq> c_prime then Inr \<lparr>valid = False, message = M_schnorr_failed\<rparr>
         else
        (let eq_did_lhs = R3 * pow1 G v c;
             eq_did_rhs = pow1 G u z_s
         in
         if eq_did_lhs \<noteq> eq_did_rhs then Inr \<lparr>valid = False, message = M_did_failed\<rparr>
         else Inr \<lparr>valid = True, message = M_ok\<rparr>))))))))))"

subsection \<open>The \<open>/verify\<close> route\<close>

datatype verify_error = V_not_setup | V_no_policy | V_no_data | V_deserialize

definition deserialize_proof ::
  "('g1, 'g2, 'gt, 'z) pairing_group \<Rightarrow> proof_payload \<Rightarrow> ('g1, 'z) identity_proof option" where
  "deserialize_proof G data =
     Option.bind (deserialize_g1 G (pl_did_u data)) (\<lambda>did_u'.
     Option.bind (deserialize_g1 G (pl_did_v data)) (\<lambda>did_v'.
     Option.bind (deserialize_g1 G (pl_A_prime data)) (\<lambda>A_prime.
     Option.bind (deserialize_g1 G (pl_A_bar data)) (\<lambda>A_bar.
     Option.bind (deserialize_zr G (pl_c data)) (\<lambda>c.
     Option.bind (deserialize_zr G (pl_z_x data)) (\<lambda>z_x.
     Option.bind (deserialize_zr G (pl_z_r1 data)) (\<lambda>z_r1.
     Option.bind (deserialize_zr G (pl_z_s_prime data)) (\<lambda>z_s_prime.
     Option.bind (deserialize_zr G (pl_z_s data)) (\<lambda>z_s.
     Option.bind (deserialize_g1 G (pl_R3 data)) (\<lambda>R3.
     Option.bind (those (map (\<lambda>(k, v). map_option (Pair k) (deserialize_zr G v))
                          (pl_z_hidden data))) (\<lambda>z_hidden.
       Some \<lparr>p_disclosed_attrs = pl_disclosed_attrs data,
             p_did_u = did_u', p_did_v = did_v',
             p_A_prime = A_prime, p_A_bar = A_bar,
             p_c = c, p_z_x = z_x, p_z_r1 = z_r1, p_z_s_prime = z_s_prime, p_z_s = z_s,
             p_R3 = R3, p_z_hidden = z_hidden\<rparr>)))))))))))"

definition route_verify ::
  "('g1::comm_monoid_mult, 'g2, 'gt, 'z::field) pairing_group \<Rightarrow> ('g1, 'g2) verifier
     \<Rightarrow> proof_payload option \<Rightarrow> py_error + (verify_error + verify_result) \<times> nat" where
  "route_verify G V data =
     (if \<not> v_is_setup V then Inr (Inl V_not_setup, 400)
      else if v_policy V = None then Inr (Inl V_no_policy, 400)
      else
        (case data of
           None \<Rightarrow> Inr (Inl V_no_data, 400)
         | Some payload \<Rightarrow>
             (case deserialize_proof G payload of
                None \<Rightarrow> Inr (Inl V_deserialize, 400)
              | Some proof \<Rightarrow>
                  (case verify G V proof of
                     Inl e \<Rightarrow> Inl e
                   | Inr result \<Rightarrow>
                       Inr (Inr result, if valid result then 200 else 400)))))"

section \<open>Vocabulary of the statements\<close>

text \<open>
  The challenge of the attribute proof, the ways a slot of an attribute vector can be, a slot
  of a request that the route accepts, the proof a holder sends for a blinded slot
  (\<open>generate_nizk_proof\<close> of the issuer's tests), and the JSON of a cleartext slot, of a
  blinded slot and of a request.
\<close>

definition nizk_challenge ::
  "('g1, 'g2, 'gt, 'z) pairing_group \<Rightarrow> 'g1 \<Rightarrow> 'g1 \<Rightarrow> 'g1 \<Rightarrow> 'z" where
  "nizk_challenge G h_i C R =
     hash_zr G (serialize_g1 G h_i @ serialize_g1 G C @ serialize_g1 G R)"

definition slot_ok ::
  "('g1::comm_monoid_mult, 'g2, 'gt, 'z) pairing_group \<Rightarrow> 'g1 \<Rightarrow> ('g1, 'z) attr \<Rightarrow> 'z \<Rightarrow> bool" where
  "slot_ok G h_i a m =
     (case a_value a of
        Some v \<Rightarrow> m = hash_zr G v
      | None \<Rightarrow>
          (case (a_commitment a, a_proof a) of
             (Some C, Some p) \<Rightarrow> C = pow1 G h_i m \<and> verify_nizk G h_i C p
           | _ \<Rightarrow> False))"




definition raw_slot_ok ::
  "('g1, 'g2, 'gt, 'z) pairing_group \<Rightarrow> (json \<Rightarrow> pystr) \<Rightarrow> (pystr \<times> json) list \<Rightarrow> nat \<Rightarrow> bool" where
  "raw_slot_ok G exc_str raw j =
     (case map_of raw (key_m j) of
        None \<Rightarrow> False
      | Some attr \<Rightarrow>
          (case deserialize_attr G exc_str (key_m j) attr of
             Inr (Inr a) \<Rightarrow> True
           | _ \<Rightarrow> False))"

definition generate_nizk_proof ::
  "('g1, 'g2, 'gt, 'z::{plus,times}) pairing_group \<Rightarrow> 'g1 \<Rightarrow> 'z \<Rightarrow> 'z \<Rightarrow> 'g1 \<times> ('g1, 'z) nizk_proof" where
  "generate_nizk_proof G h_i m_i r =
     (let commitment = pow1 G h_i m_i;
          R = pow1 G h_i r;
          challenge_input = serialize_g1 G h_i @ serialize_g1 G commitment @ serialize_g1 G R;
          c = hash_zr G challenge_input;
          z = r + c * m_i
      in (commitment, \<lparr>pr_R = R, pr_z = z\<rparr>))"

definition blind_attr :: "'g1 \<times> ('g1, 'z) nizk_proof \<Rightarrow> ('g1, 'z) attr" where
  "blind_attr cp = \<lparr>a_value = None, a_commitment = Some (fst cp), a_proof = Some (snd cp)\<rparr>"

definition clear_attr :: "pystr \<Rightarrow> ('g1, 'z) attr" where
  "clear_attr v = \<lparr>a_value = Some v, a_commitment = None, a_proof = None\<rparr>"

definition clear_slot :: "pystr \<Rightarrow> json" where
  "clear_slot v = JObj [(py ''value'', JStr v)]"


definition request :: "(pystr \<times> json) list \<Rightarrow> json" where
  "request raw = JObj [(py ''attributes'', JObj raw)]"

section \<open>A small pairing group\<close>

text \<open>
  A group in which everything can be computed: an element is its discrete logarithm, a
  rational number, so the product adds, the power multiplies and the pairing multiplies. The
  hash of a string is its length plus one. An element is serialised as three numbers: the
  numerator when positive, its opposite when negative, and the denominator.
\<close>

datatype expo = Expo rat

instantiation expo :: comm_monoid_mult
begin

definition one_expo :: expo where
  "one_expo = Expo 0"

fun times_expo :: "expo \<Rightarrow> expo \<Rightarrow> expo" where
  "times_expo (Expo a) (Expo b) = Expo (a + b)"

instance
proof
  fix a b c :: expo
  show "a * b * c = a * (b * c)" by (cases a; cases b; cases c) simp
  show "a * b = b * a" by (cases a; cases b) simp
  show "1 * a = a" by (cases a) (simp add: one_expo_def)
qed

end

fun expo_pow :: "expo \<Rightarrow> rat \<Rightarrow> expo" where
  "expo_pow (Expo a) z = Expo (a * z)"

fun expo_pair :: "expo \<Rightarrow> expo \<Rightarrow> expo" where
  "expo_pair (Expo a) (Expo b) = Expo (a * b)"

definition ser_rat :: "rat \<Rightarrow> pystr" where
  "ser_rat q = (case quotient_of q of (a, b) \<Rightarrow> [nat a, nat (- a), nat b])"

fun deser_rat :: "pystr \<Rightarrow> rat option" where
  "deser_rat [p, n, d] = Some (Fract (int p - int n) (int d))"
| "deser_rat _ = None"

fun ser_expo :: "expo \<Rightarrow> pystr" where
  "ser_expo (Expo a) = ser_rat a"

definition deser_expo :: "pystr \<Rightarrow> expo option" where
  "deser_expo s = map_option Expo (deser_rat s)"

definition toy_group :: "(expo, expo, expo, rat) pairing_group" where
  "toy_group =
     \<lparr>pow1 = expo_pow, pow2 = expo_pow, pair = expo_pair, zr_div = (\<lambda>a b. a / b),
      hash_zr = (\<lambda>s. of_nat (length s) + 1),
      serialize_g1 = ser_expo, serialize_zr = ser_rat,
      deserialize_g1 = deser_expo, deserialize_zr = deser_rat\<rparr>"

text \<open>
  An issuer with two attributes and secret key 3, attribute vectors for it, a holder and a
  verifier whose policy asks for the first attribute.
\<close>

definition toy_hs :: "nat \<Rightarrow> expo" where
  "toy_hs i = Expo (of_nat i + 2)"

definition toy_issuer :: "(expo, expo, rat) issuer" where
  "toy_issuer = issuer_setup toy_group 2 (Expo 1) (Expo 1) 3 (Expo 5) toy_hs"

definition toy_PP :: "(expo, expo) public_params" where
  "toy_PP = \<lparr>pp_g1 = Expo 1, pp_g2 = Expo 1, pp_pk = Expo 3, pp_n = 2, pp_hp = Expo 5,
             pp_h = (\<lambda>i. if i \<le> 2 then Some (toy_hs i) else None)\<rparr>"

definition toy_attributes :: "nat \<Rightarrow> (expo, rat) attr option" where
  "toy_attributes =
     [1 \<mapsto> clear_attr (py ''alice''),
      2 \<mapsto> blind_attr (generate_nizk_proof toy_group (toy_hs 2) 5 7)]"

definition toy_m :: "nat \<Rightarrow> rat" where
  "toy_m i = (if i = 1 then hash_zr toy_group (py ''alice'') else 5)"

definition toy_clear_attributes :: "nat \<Rightarrow> (expo, rat) attr option" where
  "toy_clear_attributes = [1 \<mapsto> clear_attr (py ''alice''), 2 \<mapsto> clear_attr (py ''25'')]"



definition toy_vals :: "nat \<Rightarrow> pystr" where
  "toy_vals i = (if i = 1 then py ''alice'' else py ''25'')"

definition toy_user_attributes :: "nat \<Rightarrow> pystr option" where
  "toy_user_attributes = [1 \<mapsto> py ''alice'', 2 \<mapsto> py ''25'']"

definition toy_rnd :: "(expo, rat) randomness" where
  "toy_rnd = \<lparr>rnd_v = Expo 2, rnd_r1 = 2, rnd_k_x = 1, rnd_k_r1 = 3, rnd_k_s_prime = 1,
              rnd_k_s = 4, rnd_k_m_primes = (\<lambda>i. 1)\<rparr>"

definition toy_cred :: "(expo, rat) credential" where
  "toy_cred = \<lparr>cred_A = Expo 37, cred_x = - 2, cred_s = 3\<rparr>"

definition toy_user0 :: "(expo, expo, rat) user" where
  "toy_user0 = \<lparr>u_PP = toy_PP, u_attributes = Some toy_user_attributes,
                u_credential = Some toy_cred, u_did = None\<rparr>"

definition toy_user :: "(expo, expo, rat) user" where
  "toy_user = toy_user0\<lparr>u_did := Some \<lparr>did_u = Expo 6, did_v = Expo 2\<rparr>\<rparr>"

definition toy_verifier :: "(expo, expo) verifier" where
  "toy_verifier = set_policy [(1, py ''alice'')] (verifier_setup toy_PP Verifier_init)"







definition toy_raw_null :: "(pystr \<times> json) list" where
  "toy_raw_null = [(key_m 1, clear_slot (py ''alice'')), (key_m 2, JNull)]"

definition no_text :: "json \<Rightarrow> pystr" where
  "no_text j = []"



section \<open>Lemmas about the Merkle tree\<close>

lemma proof_level_found:
  "current_index < int i \<Longrightarrow>
   proof_level E cur i (proof, current_index, nxt) = (proof, current_index, root_level E cur i nxt)"
proof (induction E cur i nxt rule: root_level.induct)
  case (1 E cur i nxt)
  show ?case
  proof (cases "i < length cur")
    case True
    from "1.prems" have "current_index < int (i + 2)" by simp
    from "1.IH" [OF True refl refl this] True "1.prems" show ?thesis
      by (subst proof_level.simps, subst root_level.simps) (simp add: Let_def)
  next
    case False
    then show ?thesis
      by (subst proof_level.simps, subst root_level.simps) simp
  qed
qed

lemma proof_level_pending:
  "even i \<Longrightarrow> i \<le> k \<Longrightarrow> k < length cur \<Longrightarrow>
   proof_level E cur i (proof, int k, nxt) =
     (proof @ [sibling cur k], int (k div 2), root_level E cur i nxt)"
proof (induction E cur i nxt rule: root_level.induct)
  case (1 E cur i nxt)
  from "1.prems" have il: "i < length cur" by simp
  consider "k = i" | "k = i + 1" | "i + 2 \<le> k" using "1.prems" by linarith
  then show ?case
  proof cases
    case 1
    have "int (i div 2) < int (i + 2)" by simp
    then show ?thesis using 1 il "1.prems"(1)
      apply (subst proof_level.simps, subst root_level.simps) 
      apply (simp add: Let_def proof_level_found sibling_def zdiv_int)
      done
  next
    case 2
    have "int (i div 2) < int (i + 2)" by simp
    then show ?thesis using 2 il "1.prems"(1)
      apply (subst proof_level.simps, subst root_level.simps) 
      apply (simp add: Let_def proof_level_found sibling_def zdiv_int)
      done
  next
    case 3
    have ev: "even (i + 2)" using "1.prems"(1) by simp
    from "1.IH" [OF il refl refl ev 3 "1.prems"(3)] 3 il show ?thesis
      apply (subst proof_level.simps, subst root_level.simps) 
      apply (simp add: Let_def)
      done
  qed
qed

lemma py_left_right: "py ''right'' \<noteq> py ''left''"
  by (simp add: py_def)

lemma verify_fold_append:
  "verify_fold E h (ps @ qs) = verify_fold E (verify_fold E h ps) qs"
  by (induction ps arbitrary: h) (simp_all add: Let_def)

lemma verify_sibling:
  "k < length cur \<Longrightarrow> verify_fold E (cur ! k) [sibling cur k] = parent E cur k"
proof (cases "even k")
  case True
  then have "2 * (k div 2) = k" by simp
  then show ?thesis using True
    by (simp add: sibling_def parent_def Let_def py_left_right)
next
  case False
  assume "k < length cur"
  from False have e: "2 * (k div 2) = k - 1" "k - 1 + 1 = k"
    by (simp_all add: odd_two_times_div_two_nat)
  show ?thesis using False \<open>k < length cur\<close>
    by (simp add: sibling_def parent_def Let_def e)
qed

lemma root_level_prefix:
  "j < length nxt \<Longrightarrow> root_level E cur i nxt ! j = nxt ! j"
proof (induction E cur i nxt rule: root_level.induct)
  case (1 E cur i nxt)
  show ?case
  proof (cases "i < length cur")
    case True
    have "j < length (nxt @ [hash_pair E (cur ! i)
             (if i + 1 < length cur then cur ! (i + 1) else cur ! i)])"
      using "1.prems" by simp
    from "1.IH" [OF True refl refl this] True "1.prems" show ?thesis
      by (subst root_level.simps) (simp add: Let_def nth_append)
  next
    case False
    then show ?thesis by (subst root_level.simps) simp
  qed
qed

lemma root_level_nth:
  "even i \<Longrightarrow> i \<le> k \<Longrightarrow> k < length cur \<Longrightarrow>
   root_level E cur i nxt ! (length nxt + (k - i) div 2) = parent E cur k"
proof (induction E cur i nxt rule: root_level.induct)
  case (1 E cur i nxt)
  from "1.prems" have il: "i < length cur" by simp
  let ?n = "nxt @ [hash_pair E (cur ! i) (if i + 1 < length cur then cur ! (i + 1) else cur ! i)]"
  consider "k = i \<or> k = i + 1" | "i + 2 \<le> k" using "1.prems" by linarith
  then show ?case
  proof cases
    case 1
    then have kd: "(k - i) div 2 = 0" "2 * (k div 2) = i"
      using "1.prems"(1) by auto
    have "root_level E cur (i + 2) ?n ! length nxt = ?n ! length nxt"
      by (rule root_level_prefix) simp
    then show ?thesis using il kd
      by (simp add: root_level.simps [of E cur i] Let_def parent_def)
  next
    case 2
    have ev: "even (i + 2)" using "1.prems"(1) by simp
    have idx: "length ?n + (k - (i + 2)) div 2 = length nxt + (k - i) div 2"
      using 2 by simp
    have step: "root_level E cur i nxt = root_level E cur (i + 2) ?n"
      using il by (simp add: root_level.simps [of E cur i] Let_def)
    from "1.IH" [OF il refl refl ev 2 "1.prems"(3)]
    have "root_level E cur (i + 2) ?n ! (length ?n + (k - (i + 2)) div 2) = parent E cur k" .
    then show ?thesis by (simp only: step idx)
  qed
qed

lemma proof_loop_root:
  "k < length cur \<Longrightarrow> verify_fold E h acc = cur ! k \<Longrightarrow>
   \<exists>r rest. root_loop E cur = r # rest \<and>
             verify_fold E h (proof_loop E cur acc (int k)) = r"
proof (induction E cur arbitrary: k acc rule: root_loop.induct)
  case (1 E cur)
  show ?case
  proof (cases "length cur > 1")
    case True
    let ?nxt = "root_level E cur 0 []"
    have lvl: "proof_level E cur 0 (acc, int k, []) = (acc @ [sibling cur k], int (k div 2), ?nxt)"
      using "1.prems"(1) by (simp add: proof_level_pending)
    have k2: "k div 2 < length ?nxt"
      using "1.prems"(1) by (simp add: length_root_level)
    have "?nxt ! (length ([]::pystr list) + (k - 0) div 2) = parent E cur k"
      using "1.prems"(1) by (intro root_level_nth) simp_all
    then have nth: "?nxt ! (k div 2) = parent E cur k" by simp
    have "verify_fold E h (acc @ [sibling cur k]) = ?nxt ! (k div 2)"
      using "1.prems" by (simp only: verify_fold_append nth verify_sibling)
    from "1.IH" [OF True k2 this] True lvl show ?thesis
      by (simp add: root_loop.simps [of E cur] proof_loop.simps [of E cur])
  next
    case False
    with "1.prems"(1) obtain c where c: "cur = [c]" "k = 0"
      by (cases cur) auto
    with "1.prems"(2) show ?thesis
      by (simp add: root_loop.simps [of E "[c]"] proof_loop.simps [of E "[c]"])
  qed
qed

lemma root_loop_nonempty: "cur \<noteq> [] \<Longrightarrow> root_loop E cur \<noteq> []"
proof (induction E cur rule: root_loop.induct)
  case (1 E cur)
  show ?case
  proof (cases "length cur > 1")
    case True
    then have "root_level E cur 0 [] \<noteq> []"
      using length_root_level [of E cur 0 "[]"] by auto
    from "1.IH" [OF True this] True show ?thesis
      by (simp add: root_loop.simps [of E cur])
  next
    case False
    with "1.prems" show ?thesis by (simp add: root_loop.simps [of E cur])
  qed
qed

lemma build_merkle_root_total: "\<exists>r. build_merkle_root E txs = Inr r"
proof (cases "txs = []")
  case True
  then show ?thesis by (simp add: build_merkle_root_def)
next
  case False
  then have "root_loop E (map (hash_transaction E) txs) \<noteq> []"
    by (intro root_loop_nonempty) simp
  then show ?thesis using False
    by (auto simp: build_merkle_root_def split: list.splits)
qed

section \<open>Lemmas about the ledger\<close>

lemma wufa_in_empty: "sublist wufa msg_buffer_empty"
  by (simp add: wufa_def msg_buffer_empty_def sublist_code)

lemma wufa_not_in_created: "\<not> sublist wufa msg_block_created"
  by (simp add: wufa_def msg_block_created_def sublist_code)

lemma py_message_error: "py ''error'' \<noteq> py ''message''"
  by (simp add: py_def)

lemma Block_init_ok:
  "\<exists>b. Block_init E h p txs ts clock = Inr b \<and> height b = h \<and> prev_hash b = p \<and>
       transactions b = txs \<and> build_merkle_root E txs = Inr (merkle_root b)"
  using build_merkle_root_total [of E txs] by (auto simp: Block_init_def)

lemma mine_block_nonempty:
  assumes "pending_transactions bc \<noteq> []" "chain bc \<noteq> []"
  shows "\<exists>result b. mine_block E clock bc =
            Inr (result, bc\<lparr>chain := chain bc @ [b], pending_transactions := []\<rparr>) \<and>
          prev_hash b = block_hash E (last (chain bc)) \<and>
          height b = height (last (chain bc)) + 1 \<and>
          transactions b = pending_transactions bc \<and>
          build_merkle_root E (transactions b) = Inr (merkle_root b)"
proof -
  from Block_init_ok [of E "height (last (chain bc)) + 1" "block_hash E (last (chain bc))"
      "pending_transactions bc" None clock]
  obtain b where b: "Block_init E (height (last (chain bc)) + 1) (block_hash E (last (chain bc)))
      (pending_transactions bc) None clock = Inr b"
    "height b = height (last (chain bc)) + 1" "prev_hash b = block_hash E (last (chain bc))"
    "transactions b = pending_transactions bc"
    "build_merkle_root E (pending_transactions bc) = Inr (merkle_root b)" by blast
  then show ?thesis using assms
    by (auto simp: mine_block_def Let_def intro!: exI [of _ b])
qed

lemma integrity_append:
  assumes "chain bc \<noteq> []" "chain_integrity E bc"
    "prev_hash b = block_hash E (last (chain bc))"
    "build_merkle_root E (transactions b) = Inr (merkle_root b)"
  shows "chain_integrity E (bc\<lparr>chain := chain bc @ [b], pending_transactions := p\<rparr>)"
  unfolding chain_integrity_def
proof
  fix i assume "i \<in> {1..<length (chain (bc\<lparr>chain := chain bc @ [b], pending_transactions := p\<rparr>))}"
  then have i: "1 \<le> i" "i \<le> length (chain bc)" by auto
  show "prev_hash (chain (bc\<lparr>chain := chain bc @ [b], pending_transactions := p\<rparr>) ! i) =
        block_hash E (chain (bc\<lparr>chain := chain bc @ [b], pending_transactions := p\<rparr>) ! (i - 1)) \<and>
        build_merkle_root E
          (transactions (chain (bc\<lparr>chain := chain bc @ [b], pending_transactions := p\<rparr>) ! i)) =
        Inr (merkle_root (chain (bc\<lparr>chain := chain bc @ [b], pending_transactions := p\<rparr>) ! i))"
  proof (cases "i < length (chain bc)")
    case True
    then have "i - 1 < length (chain bc)" by simp
    with True i assms(2) show ?thesis
      by (simp add: chain_integrity_def nth_append)
  next
    case False
    with i have "i = length (chain bc)" by simp
    with assms(1,3,4) show ?thesis
      by (simp add: nth_append last_conv_nth)
  qed
qed

lemma apply_op_inv:
  assumes "chain bc \<noteq> []" "chain_integrity E bc"
  shows "\<exists>bc'. apply_op E x bc = Inr bc' \<and> chain bc' \<noteq> [] \<and> chain_integrity E bc'"
proof (cases x)
  case (Submit u v)
  with assms show ?thesis
    by (simp add: add_transaction_def Let_def chain_integrity_def)
next
  case (Mine clock)
  show ?thesis
  proof (cases "pending_transactions bc = []")
    case True
    with assms Mine show ?thesis by (simp add: mine_block_def)
  next
    case False
    from mine_block_nonempty [OF False assms(1), of E clock] obtain result b where
      m: "mine_block E clock bc =
            Inr (result, bc\<lparr>chain := chain bc @ [b], pending_transactions := []\<rparr>)"
      "prev_hash b = block_hash E (last (chain bc))"
      "build_merkle_root E (transactions b) = Inr (merkle_root b)" by blast
    from integrity_append [OF assms m(2,3)] m(1) Mine show ?thesis by simp
  qed
qed

lemma run_inv:
  "chain bc \<noteq> [] \<Longrightarrow> chain_integrity E bc \<Longrightarrow>
   \<exists>bc'. run E xs bc = Inr bc' \<and> chain bc' \<noteq> [] \<and> chain_integrity E bc'"
proof (induction xs arbitrary: bc)
  case Nil
  then show ?case by simp
next
  case (Cons x xs)
  from apply_op_inv [OF Cons.prems, of x] obtain bc1 where
    "apply_op E x bc = Inr bc1" "chain bc1 \<noteq> []" "chain_integrity E bc1" by blast
  with Cons.IH [of bc1] show ?case by simp
qed

lemma genesis_inv:
  "\<exists>bc. Blockchain_init E t0 clock = Inr bc \<and> chain bc \<noteq> [] \<and> chain_integrity E bc
     \<and> length (chain bc) = 1 \<and> pending_transactions bc = []"
  using Block_init_ok [of E 0 "replicate 64 (of_char CHR ''0'')" "[genesis_tx]" "Some t0" clock]
  by (auto simp: Blockchain_init_def create_genesis_block_def chain_integrity_def)

lemma tx_eq_iff: "(tx_u t = u \<and> tx_v t = v) = (t = \<lparr>tx_u = u, tx_v = v\<rparr>)"
  by (cases t) simp

lemma find_tx_index_Some:
  "find_tx_index txs u v k = Some j \<Longrightarrow>
   k \<le> j \<and> j - k < length txs \<and> txs ! (j - k) = \<lparr>tx_u = u, tx_v = v\<rparr> \<and>
   (\<forall>m < j - k. txs ! m \<noteq> \<lparr>tx_u = u, tx_v = v\<rparr>)"
proof (induction txs arbitrary: k)
  case Nil
  then show ?case by simp
next
  case (Cons t rest)
  show ?case
  proof (cases "tx_u t = u \<and> tx_v t = v")
    case True
    with Cons.prems show ?thesis by (auto simp: tx_eq_iff)
  next
    case False
    with Cons.prems have "find_tx_index rest u v (k + 1) = Some j" by simp
    from Cons.IH [OF this] have ih: "k + 1 \<le> j" "j - (k + 1) < length rest"
      "rest ! (j - (k + 1)) = \<lparr>tx_u = u, tx_v = v\<rparr>"
      "\<forall>m < j - (k + 1). rest ! m \<noteq> \<lparr>tx_u = u, tx_v = v\<rparr>" by auto
    from ih(1) have jk: "j - k = Suc (j - (k + 1))" by simp
    have "\<forall>m < j - k. (t # rest) ! m \<noteq> \<lparr>tx_u = u, tx_v = v\<rparr>"
    proof (intro allI impI)
      fix m assume "m < j - k"
      then show "(t # rest) ! m \<noteq> \<lparr>tx_u = u, tx_v = v\<rparr>"
        using False ih(4) jk by (cases m) (auto simp: tx_eq_iff)
    qed
    with ih jk show ?thesis by simp
  qed
qed

lemma find_tx_index_exists:
  "\<lparr>tx_u = u, tx_v = v\<rparr> \<in> set txs \<Longrightarrow> \<exists>j. find_tx_index txs u v k = Some j"
  by (induction txs arbitrary: k) (auto simp: tx_eq_iff)

section \<open>Algebra of the pairing group\<close>

lemma pow1_add: "group_laws G \<Longrightarrow> pow1 G g (a + b) = pow1 G g a * pow1 G g b"
  by (simp add: group_laws_def)

lemma pow1_mult: "group_laws G \<Longrightarrow> pow1 G (g * h) a = pow1 G g a * pow1 G h a"
  by (simp add: group_laws_def)

lemma pow1_pow: "group_laws G \<Longrightarrow> pow1 G (pow1 G g a) b = pow1 G g (a * b)"
  by (simp add: group_laws_def)

lemma pow1_one: "group_laws G \<Longrightarrow> pow1 G g 1 = g"
  by (simp add: group_laws_def)

lemma pow1_zero: "group_laws G \<Longrightarrow> pow1 G g 0 = 1"
  by (simp add: group_laws_def)

lemma pow2_add: "group_laws G \<Longrightarrow> pow2 G g (a + b) = pow2 G g a * pow2 G g b"
  by (simp add: group_laws_def)

lemma pair_slide: "group_laws G \<Longrightarrow> pair G (pow1 G a z) b = pair G a (pow2 G b z)"
  by (simp add: group_laws_def)

lemma zr_div_nonzero: "group_laws G \<Longrightarrow> b \<noteq> 0 \<Longrightarrow> zr_div G a b = a / b"
  by (simp add: group_laws_def)




lemma pow1_prod_list:
  assumes "group_laws G"
  shows "pow1 G (prod_list gs) a = prod_list (map (\<lambda>g. pow1 G g a) gs)"
proof (induction gs)
  case Nil
  have "pow1 G 1 a = pow1 G (pow1 G 1 0) a" by (simp only: pow1_zero [OF assms])
  also have "\<dots> = pow1 G 1 (0 * a)" by (rule pow1_pow [OF assms])
  also have "\<dots> = 1" by (simp add: pow1_zero [OF assms])
  finally show ?case by simp
next
  case (Cons g gs)
  then show ?case by (simp add: pow1_mult [OF assms])
qed

section \<open>The attribute proof\<close>

lemma verify_nizk_iff:
  "verify_nizk G h_i C p \<longleftrightarrow>
     pow1 G h_i (pr_z p) =
       pow1 G C (hash_zr G (serialize_g1 G h_i @ serialize_g1 G C @ serialize_g1 G (pr_R p)))
         * pr_R p"
  by (simp add: verify_nizk_def Let_def)


lemma nizk_complete:
  assumes gl: "group_laws G"
    and R: "pr_R p = pow1 G h_i r"
    and z: "pr_z p = r + nizk_challenge G h_i (pow1 G h_i m) (pr_R p) * m"
  shows "verify_nizk G h_i (pow1 G h_i m) p"
  by (simp add: verify_nizk_iff z R pow1_add [OF gl] pow1_pow [OF gl] mult.commute
      nizk_challenge_def [symmetric])

section \<open>The loops of the issuer\<close>

lemma issue_loop_ok:
  assumes "\<forall>i \<in> set idx. \<exists>a. pp_h PP i = Some (h i) \<and> attributes i = Some a \<and> slot_ok G (h i) a (m i)"
  shows "issue_loop G PP attributes idx A =
           Inr (Some (A * prod_list (map (\<lambda>i. pow1 G (h i) (m i)) idx)))"
  using assms
proof (induction idx arbitrary: A)
  case Nil
  then show ?case by simp
next
  case (Cons i rest)
  from Cons.prems obtain a where a: "pp_h PP i = Some (h i)" "attributes i = Some a"
    "slot_ok G (h i) a (m i)" by auto
  from Cons.prems have rest: "\<forall>i \<in> set rest. \<exists>a. pp_h PP i = Some (h i) \<and>
      attributes i = Some a \<and> slot_ok G (h i) a (m i)" by simp
  show ?case
  proof (cases "a_value a")
    case (Some v)
    with a Cons.IH [OF rest] show ?thesis
      by (simp add: slot_ok_def Let_def mult.assoc)
  next
    case None
    with a(3) obtain C p where "a_commitment a = Some C" "a_proof a = Some p"
      "C = pow1 G (h i) (m i)" "verify_nizk G (h i) C p"
      by (auto simp: slot_ok_def split: option.splits)
    with None a Cons.IH [OF rest] show ?thesis
      by (simp add: mult.assoc)
  qed
qed


lemma issue_credential:
  assumes gl: "group_laws G"
    and slots: "\<forall>i \<in> {1..n}. \<exists>a. attributes i = Some a \<and> slot_ok G (hs i) a (m i)"
  shows "issue G (issuer_setup G n g1 g2 sk hp hs) attributes x s =
           Inr (Some \<lparr>cred_A = pow1 G (g1 * pow1 G (hs 0) s *
                                    prod_list (map (\<lambda>i. pow1 G (hs i) (m i)) [1..<n + 1]))
                                  (zr_div G 1 (sk + x)),
                       cred_x = x, cred_s = s\<rparr>)"
proof -
  let ?PP = "\<lparr>pp_g1 = g1, pp_g2 = g2, pp_pk = pow2 G g2 sk, pp_n = n, pp_hp = hp,
              pp_h = (\<lambda>i. if i \<le> n then Some (hs i) else None)\<rparr>"
  let ?B = "g1 * pow1 G (hs 0) s * prod_list (map (\<lambda>i. pow1 G (hs i) (m i)) [1..<n + 1])"
  have "\<forall>i \<in> set [1..<n + 1]. \<exists>a. pp_h ?PP i = Some (hs i) \<and> attributes i = Some a \<and>
          slot_ok G (hs i) a (m i)"
    using slots by auto
  from issue_loop_ok [OF this, of "g1 * pow1 G (hs 0) s"]
  have loop: "issue_loop G ?PP attributes [1..<n + 1] (g1 * pow1 G (hs 0) s) = Inr (Some ?B)" .
  then show ?thesis by (simp add: issue_def issuer_setup_def Let_def)
qed

lemma upt_split:
  assumes "1 \<le> i" "i \<le> n"
  shows "[1..<n + 1] = [1..<i] @ i # [i + 1..<n + 1]"
proof -
  have "[1..<i + (n + 1 - i)] = [1..<i] @ [i..<i + (n + 1 - i)]"
    using assms(1) by (rule upt_add_eq_append)
  then have "[1..<n + 1] = [1..<i] @ [i..<n + 1]"
    using assms(2) by simp
  also have "[i..<n + 1] = i # [i + 1..<n + 1]"
    using assms by (simp add: upt_rec [of i])
  finally show ?thesis .
qed


section \<open>The route of the issuer\<close>

text \<open>
  The loop over the slots stops at the first slot it does not accept, with the message of
  that slot or with the exception it raises. A slot that is \<open>null\<close>, a boolean or a number
  makes \<open>"value" in attr\<close> raise outside the \<open>try\<close>.
\<close>

lemma in_keys_iff: "k \<in> fst ` set raw \<longleftrightarrow> map_of raw k \<noteq> None"
  by (simp add: map_of_eq_None_iff)



lemma deserialize_attrs_first_raise:
  assumes "\<forall>j \<in> set pre. raw_slot_ok G exc_str raw j"
    and "map_of raw (key_m i) = Some a"
    and "deserialize_attr G exc_str (key_m i) a = Inl e"
  shows "deserialize_attrs G exc_str (JObj raw) (pre @ i # post) acc = Inl e"
  using assms
proof (induction pre arbitrary: acc)
  case Nil
  then show ?case
    by (auto simp: Let_def in_keys_iff split: option.splits sum.splits)
next
  case (Cons j pre)
  then show ?case
    by (auto simp: raw_slot_ok_def Let_def in_keys_iff split: option.splits sum.splits)
qed


lemma route_issue_request:
  assumes "is_setup st" and "iss_PP st = Some PP"
  shows "route_issue G exc_str st (request raw) x s =
     (if length raw \<noteq> pp_n PP then Inr (Inl (msg_count (pp_n PP) (length raw)), 400)
      else
        (case deserialize_attrs G exc_str (JObj raw) [1..<pp_n PP + 1] Map.empty of
           Inl e \<Rightarrow> Inl e
         | Inr (Inl msg) \<Rightarrow> Inr (Inl msg, 400)
         | Inr (Inr attributes) \<Rightarrow>
             if \<not> string_values attributes (pp_n PP) then Inl TypeError
             else
               (case issue G st (issue_attrs attributes) x s of
                  Inl e \<Rightarrow> Inl e
                | Inr None \<Rightarrow> Inr (Inl msg_failed, 400)
                | Inr (Some credential) \<Rightarrow>
                    Inr (Inr \<lparr>cp_A = serialize_g1 G (cred_A credential),
                              cp_x = serialize_zr G (cred_x credential),
                              cp_s = serialize_zr G (cred_s credential)\<rparr>,
                         201))))"
  using assms by (simp add: route_issue_def request_def)

lemma route_issue_null_slot:
  assumes "st = issuer_setup G n g1 g2 sk hp hs"
    and "length raw = n" and "1 \<le> i" and "i \<le> n"
    and "\<forall>j \<in> {1..<i}. raw_slot_ok G exc_str raw j"
    and "map_of raw (key_m i) = Some a"
    and "a = JNull \<or> (\<exists>b. a = JBool b) \<or> (\<exists>q. a = JNum q)"
  shows "route_issue G exc_str st (request raw) x s = Inl TypeError"
proof -
  have st: "is_setup st" "iss_PP st = Some \<lparr>pp_g1 = g1, pp_g2 = g2, pp_pk = pow2 G g2 sk,
      pp_n = n, pp_hp = hp, pp_h = (\<lambda>i. if i \<le> n then Some (hs i) else None)\<rparr>"
    using assms(1) by (simp_all add: issuer_setup_def Let_def)
  have "deserialize_attr G exc_str (key_m i) a = Inl TypeError"
    using assms(7) by (auto simp: deserialize_attr_def)
  moreover have "\<forall>j \<in> set [1..<i]. raw_slot_ok G exc_str raw j" using assms(5) by simp
  ultimately have "deserialize_attrs G exc_str (JObj raw) ([1..<i] @ i # [i + 1..<n + 1])
      Map.empty = Inl TypeError"
    using assms(6) by (intro deserialize_attrs_first_raise)
  then have "deserialize_attrs G exc_str (JObj raw) [1..<n + 1] Map.empty = Inl TypeError"
    by (simp only: upt_split [OF assms(3,4)])
  then show ?thesis
    using assms(2) by (simp add: route_issue_request [OF st])
qed

section \<open>The loops of the holder and of the verifier\<close>

lemma messages_loop_ok:
  assumes "\<forall>i \<in> set idx. attributes i = Some (vals i)"
  shows "messages_loop G attributes idx msgs =
           Inr (\<lambda>i. if i \<in> set idx then Some (hash_zr G (vals i)) else msgs i)"
  using assms
proof (induction idx arbitrary: msgs)
  case Nil
  then show ?case by simp
next
  case (Cons i rest)
  then show ?case by (auto simp: fun_eq_iff)
qed

lemma commit_loop_ok:
  assumes "\<forall>i \<in> set idx. pp_h PP i = Some (h i) \<and> messages i = Some (m i)"
  shows "commit_loop G PP messages idx B =
           Inr (B * prod_list (map (\<lambda>i. pow1 G (h i) (m i)) idx))"
  using assms
  by (induction idx arbitrary: B) (simp_all add: mult.assoc)

lemma m_primes_loop_ok:
  assumes "\<forall>i \<in> set idx. messages i = Some (m i)"
  shows "m_primes_loop messages r1 idx mp =
           Inr (\<lambda>i. if i \<in> set idx then Some (m i * r1) else mp i)"
  using assms
proof (induction idx arbitrary: mp)
  case Nil
  then show ?case by simp
next
  case (Cons i rest)
  then show ?case by (auto simp: fun_eq_iff)
qed

lemma hidden_loop_ok:
  assumes "\<forall>i \<in> set idx. pp_h PP i = Some (h i)"
  shows "hidden_loop G PP k idx T = Inr (T * prod_list (map (\<lambda>i. pow1 G (h i) (k i)) idx))"
  using assms
  by (induction idx arbitrary: T) (simp_all add: mult.assoc)

lemma z_hidden_loop_ok:
  assumes "\<forall>i \<in> set idx. mp i = Some (m i)"
  shows "z_hidden_loop k mp c idx acc = Inr (acc @ map (\<lambda>i. (i, k i + c * m i)) idx)"
  using assms
  by (induction idx arbitrary: acc) simp_all

lemma disclosed_loop_ok:
  assumes "\<forall>j \<in> set idx. attributes j = Some (vals j)"
  shows "disclosed_loop attributes idx acc = Inr (acc @ map (\<lambda>j. (j, vals j)) idx)"
  using assms
  by (induction idx arbitrary: acc) simp_all

lemma disclosed_commit_loop_ok:
  assumes "\<forall>j \<in> set idx. pp_h PP j = Some (h j)"
  shows "disclosed_commit_loop G PP (map (\<lambda>j. (j, vals j)) idx) B =
           Inr (B * prod_list (map (\<lambda>j. pow1 G (h j) (hash_zr G (vals j))) idx))"
  using assms
  by (induction idx arbitrary: B) (simp_all add: mult.assoc Let_def)

lemma hidden_response_loop_ok:
  assumes "\<forall>i \<in> set idx. pp_h PP i = Some (h i)"
  shows "hidden_response_loop G PP (map (\<lambda>i. (i, z i)) idx) T =
           Inr (T * prod_list (map (\<lambda>i. pow1 G (h i) (z i)) idx))"
  using assms
  by (induction idx arbitrary: T) (simp_all add: mult.assoc)

lemma policy_loop_ok:
  assumes "\<forall>(k, req) \<in> set policy. map_of disclosed k = Some req"
  shows "policy_loop disclosed policy = None"
  using assms
  by (induction policy) auto

lemma policy_loop_message:
  "policy_loop da policy = Some r \<Longrightarrow> message r \<noteq> M_ok \<and> message r \<noteq> M_did_failed"
  by (induction da policy rule: policy_loop.induct) (auto split: option.splits if_splits)

lemma map_of_disclosed:
  "k \<in> set D \<Longrightarrow> map_of (map (\<lambda>j. (j, vals j)) D) k = Some (vals k)"
  by (induction D) auto

lemma those_deserialize:
  assumes "wire_laws G"
  shows "those (map (\<lambda>(k, v). map_option (Pair k) (deserialize_zr G v))
           (map (\<lambda>(k, v). (k, serialize_zr G v)) zs)) = Some zs"
  using assms
  by (induction zs) (auto simp: wire_laws_def)

lemma verify_fourth_check:
  assumes "verify G V idp = Inr r" and "message r = M_ok \<or> message r = M_did_failed"
  shows "valid r \<longleftrightarrow>
           pow1 G (p_did_u idp) (p_z_s idp) = p_R3 idp * pow1 G (p_did_v idp) (p_c idp)"
  using assms
  by (auto simp: verify_def Let_def dest: policy_loop_message
      split: if_splits option.splits sum.splits)

section \<open>Algebra of the disclosure proof\<close>

lemma prod_list_split:
  fixes f :: "nat \<Rightarrow> 'a::comm_monoid_mult"
  assumes "distinct D" "set D \<subseteq> {1..n}"
  shows "prod_list (map f [1..<n + 1]) =
           prod_list (map f D) * prod_list (map f (filter (\<lambda>i. i \<notin> set D) [1..<n + 1]))"
proof -
  let ?H = "filter (\<lambda>i. i \<notin> set D) [1..<n + 1]"
  have dH: "distinct ?H" by simp
  have u: "set [1..<n + 1] = set D \<union> set ?H" using assms(2) by auto
  have i: "set D \<inter> set ?H = {}" by auto
  have "prod_list (map f [1..<n + 1]) = prod f (set [1..<n + 1])"
    by (rule prod.distinct_set_conv_list [symmetric]) simp
  also have "\<dots> = prod f (set D) * prod f (set ?H)"
    unfolding u by (rule prod.union_disjoint) (use i in auto)
  also have "\<dots> = prod_list (map f D) * prod_list (map f ?H)"
    by (simp only: prod.distinct_set_conv_list [OF assms(1)] prod.distinct_set_conv_list [OF dH])
  finally show ?thesis .
qed

lemma prod_list_pow_add:
  assumes "group_laws G"
  shows "prod_list (map (\<lambda>i. pow1 G (h i) (a i + b i)) xs) =
           prod_list (map (\<lambda>i. pow1 G (h i) (a i)) xs) *
           prod_list (map (\<lambda>i. pow1 G (h i) (b i)) xs)"
  by (induction xs) (simp_all add: pow1_add [OF assms] ac_simps)

lemma prod_list_pow_scale:
  assumes "group_laws G"
  shows "prod_list (map (\<lambda>i. pow1 G (h i) (m i * e)) xs) =
           pow1 G (prod_list (map (\<lambda>i. pow1 G (h i) (m i)) xs)) e"
  by (simp add: pow1_prod_list [OF assms] pow1_pow [OF assms] o_def)

lemma pow1_combine:
  assumes "group_laws G"
  shows "pow1 G g a * pow1 G (pow1 G g b) d = pow1 G g (a + b * d)"
  by (simp add: pow1_add [OF assms] pow1_pow [OF assms])

lemma ac_regroup:
  fixes a1 :: "'a::comm_monoid_mult"
  shows "a1 * b1 * c1 * (P * d1) * (a2 * (b2 * c2 * d2)) =
         (a1 * a2) * ((b1 * b2) * ((c1 * c2) * (P * (d1 * d2))))"
  by (simp add: ac_simps)

lemma schnorr_recompute:
  assumes gl: "group_laws G"
  shows "pow1 G A' (- (k_x + c * x)) * pow1 G BD (k_r1 + c * r1) *
           pow1 G h0 (k_s' + c * (s * r1)) * (PH * pow1 G MH (r1 * c)) *
           pow1 G (pow1 G A' (- x) * pow1 G (BD * pow1 G h0 s * MH) r1) (- c) =
         pow1 G A' (- k_x) * pow1 G BD k_r1 * pow1 G h0 k_s' * PH"
proof -
  have split: "pow1 G (pow1 G A' (- x) * pow1 G (BD * pow1 G h0 s * MH) r1) (- c) =
      pow1 G (pow1 G A' (- x)) (- c) *
        (pow1 G (pow1 G BD r1) (- c) * pow1 G (pow1 G h0 (s * r1)) (- c) *
         pow1 G (pow1 G MH r1) (- c))"
    by (simp add: pow1_mult [OF gl] pow1_pow [OF gl] mult.assoc)
  have a: "pow1 G A' (- (k_x + c * x)) * pow1 G (pow1 G A' (- x)) (- c) = pow1 G A' (- k_x)"
    by (simp add: pow1_combine [OF gl] algebra_simps)
  have b: "pow1 G BD (k_r1 + c * r1) * pow1 G (pow1 G BD r1) (- c) = pow1 G BD k_r1"
    by (simp add: pow1_combine [OF gl] algebra_simps)
  have c: "pow1 G h0 (k_s' + c * (s * r1)) * pow1 G (pow1 G h0 (s * r1)) (- c) = pow1 G h0 k_s'"
    by (simp add: pow1_combine [OF gl] algebra_simps)
  have d: "pow1 G MH (r1 * c) * pow1 G (pow1 G MH r1) (- c) = 1"
    by (simp add: pow1_combine [OF gl] pow1_zero [OF gl])
  show ?thesis
    unfolding split ac_regroup a b c d by (simp add: mult.assoc)
qed

lemma did_check:
  assumes gl: "group_laws G"
  shows "pow1 G u k_s * pow1 G (pow1 G u s) c = pow1 G u (k_s + c * s)"
  by (simp add: pow1_combine [OF gl] mult.commute)

lemma pairing_check:
  assumes gl: "group_laws G" and valid: "pow1 G A (sk + x) = B"
  shows "pair G (pow1 G (pow1 G A r1) (- x) * pow1 G B r1) g2 =
         pair G (pow1 G A r1) (pow2 G g2 sk)"
proof -
  have "pow1 G (pow1 G A r1) (- x) * pow1 G B r1 =
        pow1 G A (r1 * (- x)) * pow1 G A ((sk + x) * r1)"
    by (simp add: valid [symmetric] pow1_pow [OF gl])
  also have "\<dots> = pow1 G A (r1 * (- x) + (sk + x) * r1)"
    by (simp only: pow1_add [OF gl])
  also have "r1 * (- x) + (sk + x) * r1 = r1 * sk" by (simp add: algebra_simps)
  also have "pow1 G A (r1 * sk) = pow1 G (pow1 G A r1) sk" by (simp add: pow1_pow [OF gl])
  finally show ?thesis by (simp add: pair_slide [OF gl])
qed

text \<open>
  A holder whose credential satisfies \<open>A ^ (sk + x) = g1 * h0 ^ s * \<Prod> h_i ^ m_i\<close> is
  accepted.
\<close>

lemma disclosure_core:
  assumes gl: "group_laws G" and wl: "wire_laws G"
    and st: "iss_PP (issuer_setup G n g1 g2 sk hp hs) = Some PP"
    and attrs: "\<forall>i \<in> {1..n}. attributes i = Some (vals i)"
    and valid: "pow1 G (cred_A cred) (sk + cred_x cred) =
                  g1 * pow1 G (hs 0) (cred_s cred) *
                  prod_list (map (\<lambda>i. pow1 G (hs i) (hash_zr G (vals i))) [1..<n + 1])"
    and did: "generate_did G v \<lparr>u_PP = PP, u_attributes = Some attributes,
                 u_credential = Some cred, u_did = None\<rparr> = Inr (d, usr)"
    and D: "distinct D" "set D \<subseteq> {1..n}"
    and V: "V = set_policy policy (verifier_setup PP Verifier_init)"
    and pol: "\<forall>(k, req) \<in> set policy. k \<in> set D \<and> vals k = req"
  shows "\<exists>payload usr'. build_identity_proof G rnd D usr = Inr (payload, usr') \<and>
           route_verify G V (Some payload) = Inr (Inr \<lparr>valid = True, message = M_ok\<rparr>, 200)"
proof -
  have PP: "PP = \<lparr>pp_g1 = g1, pp_g2 = g2, pp_pk = pow2 G g2 sk, pp_n = n, pp_hp = hp,
              pp_h = (\<lambda>i. if i \<le> n then Some (hs i) else None)\<rparr>"
    using st by (simp add: issuer_setup_def Let_def)
  have pp: "pp_g1 PP = g1" "pp_g2 PP = g2" "pp_pk PP = pow2 G g2 sk" "pp_n PP = n"
    "pp_h PP 0 = Some (hs 0)"
    by (simp_all add: PP)
  have pph: "pp_h PP i = Some (hs i)" if "i \<in> {1..n}" for i
    using that by (simp add: PP)
  define s where "s = cred_s cred"
  define x where "x = cred_x cred"
  define r1 where "r1 = rnd_r1 rnd"
  define k where "k = rnd_k_m_primes rnd"
  define m where "m = (\<lambda>i. hash_zr G (vals i))"
  have usr: "usr = \<lparr>u_PP = PP, u_attributes = Some attributes, u_credential = Some cred,
                    u_did = Some \<lparr>did_u = pow1 G v s, did_v = v\<rparr>\<rparr>"
    using did by (auto simp: generate_did_def Let_def s_def)
  define H where "H = filter (\<lambda>i. i \<notin> set D) [1..<n + 1]"
  have Hn: "set H \<subseteq> {1..n}" by (auto simp: H_def)
  define msgs where "msgs = (\<lambda>i. if i \<in> set [1..<n + 1] then Some (m i) else None)"
  define mps where "mps = (\<lambda>i. if i \<in> set H then Some (m i * r1) else None)"
  define A' where "A' = pow1 G (cred_A cred) r1"
  define B where "B = g1 * pow1 G (hs 0) s * prod_list (map (\<lambda>i. pow1 G (hs i) (m i)) [1..<n + 1])"
  define Abar where "Abar = pow1 G A' (- x) * pow1 G B r1"
  define BD where "BD = g1 * prod_list (map (\<lambda>i. pow1 G (hs i) (m i)) D)"
  define MH where "MH = prod_list (map (\<lambda>i. pow1 G (hs i) (m i)) H)"
  define PH where "PH = prod_list (map (\<lambda>i. pow1 G (hs i) (k i)) H)"
  define T where "T = pow1 G A' (- rnd_k_x rnd) * pow1 G BD (rnd_k_r1 rnd) *
                      pow1 G (hs 0) (rnd_k_s_prime rnd) * PH"
  define R3 where "R3 = pow1 G v (rnd_k_s rnd)"
  define c where "c = hash_zr G (serialize_g1 G A' @ serialize_g1 G Abar @ serialize_g1 G T
                                   @ serialize_g1 G R3)"
  define zx where "zx = rnd_k_x rnd + c * x"
  define zr1 where "zr1 = rnd_k_r1 rnd + c * r1"
  define zsp where "zsp = rnd_k_s_prime rnd + c * (s * r1)"
  define zs where "zs = rnd_k_s rnd + c * s"
  define zh where "zh = map (\<lambda>i. (i, k i + c * (m i * r1))) H"
  define PZ where "PZ = prod_list (map (\<lambda>i. pow1 G (hs i) (k i + c * (m i * r1))) H)"
  define da where "da = map (\<lambda>j. (j, vals j)) D"
  define payload where "payload =
     \<lparr>pl_disclosed_attrs = da,
      pl_did_u = serialize_g1 G v,
      pl_did_v = serialize_g1 G (pow1 G v s),
      pl_A_prime = serialize_g1 G A',
      pl_A_bar = serialize_g1 G Abar,
      pl_c = serialize_zr G c,
      pl_z_x = serialize_zr G zx,
      pl_z_r1 = serialize_zr G zr1,
      pl_z_s_prime = serialize_zr G zsp,
      pl_z_s = serialize_zr G zs,
      pl_R3 = serialize_g1 G R3,
      pl_z_hidden = map (\<lambda>(k, v). (k, serialize_zr G v)) zh\<rparr>"
  define idp where "idp =
     \<lparr>p_disclosed_attrs = da, p_did_u = v, p_did_v = pow1 G v s, p_A_prime = A', p_A_bar = Abar,
      p_c = c, p_z_x = zx, p_z_r1 = zr1, p_z_s_prime = zsp, p_z_s = zs, p_R3 = R3,
      p_z_hidden = zh\<rparr>"

  \<comment> \<open>the loops of the holder\<close>
  have ml: "messages_loop G attributes [1..<n + 1] Map.empty = Inr msgs"
    unfolding msgs_def m_def
    by (rule messages_loop_ok [THEN trans]) (use attrs in auto)
  have cl: "commit_loop G PP msgs [1..<n + 1] (g1 * pow1 G (hs 0) s) = Inr B"
    unfolding B_def
    by (rule commit_loop_ok) (auto simp: msgs_def pph)
  have mpl: "m_primes_loop msgs r1 H Map.empty = Inr mps"
    unfolding mps_def
    by (rule m_primes_loop_ok [THEN trans]) (use Hn in \<open>auto simp: msgs_def\<close>)
  have cl2: "commit_loop G PP msgs D g1 = Inr BD"
    unfolding BD_def
    by (rule commit_loop_ok) (use D(2) in \<open>auto simp: msgs_def pph\<close>)
  have hl: "hidden_loop G PP k H X = Inr (X * PH)" for X
    unfolding PH_def
    by (rule hidden_loop_ok) (use Hn in \<open>auto simp: pph\<close>)
  have zl: "z_hidden_loop k mps c H [] = Inr zh"
    unfolding zh_def
    by (rule z_hidden_loop_ok [THEN trans]) (auto simp: mps_def)
  have dl: "disclosed_loop attributes D [] = Inr da"
    unfolding da_def
    by (rule disclosed_loop_ok [THEN trans]) (use D(2) attrs in auto)
  have hl': "hidden_loop G PP k H (pow1 G A' (- rnd_k_x rnd) * pow1 G BD (rnd_k_r1 rnd) *
                pow1 G (hs 0) (rnd_k_s_prime rnd)) = Inr T"
    unfolding T_def by (rule hl)
  have build: "build_identity_proof G rnd D usr = Inr (payload, usr)"
    using ml cl mpl cl2 hl' zl dl
    unfolding payload_def c_def zx_def zr1_def zsp_def zs_def R3_def Abar_def A'_def
      s_def x_def r1_def k_def H_def
    by (simp add: build_identity_proof_def usr pp Let_def s_def del: upt_Suc)

  \<comment> \<open>the wire\<close>
  have g1s: "deserialize_g1 G (serialize_g1 G g) = Some g" for g
    using wl by (simp add: wire_laws_def)
  have zrs: "deserialize_zr G (serialize_zr G z) = Some z" for z
    using wl by (simp add: wire_laws_def)
  have deser: "deserialize_proof G payload = Some idp"
    using those_deserialize [OF wl, of zh]
    by (simp add: deserialize_proof_def payload_def idp_def g1s zrs)

  \<comment> \<open>the four checks of the verifier\<close>
  have polk: "map_of da k' = Some req" if "(k', req) \<in> set policy" for k' req
    using that pol map_of_disclosed [of k' D vals] by (auto simp: da_def)
  have c1: "policy_loop da policy = None"
    by (rule policy_loop_ok) (use polk in auto)
  have valid': "pow1 G (cred_A cred) (sk + x) = B"
    using valid by (simp add: B_def x_def s_def m_def)
  have c2: "pair G Abar g2 = pair G A' (pow2 G g2 sk)"
    unfolding Abar_def A'_def by (rule pairing_check [OF gl valid'])
  have dcl: "disclosed_commit_loop G PP da g1 = Inr BD"
    unfolding da_def BD_def m_def
    by (rule disclosed_commit_loop_ok) (use D(2) in \<open>auto simp: pph\<close>)
  have hrl: "hidden_response_loop G PP zh X = Inr (X * PZ)" for X
    unfolding zh_def PZ_def
    by (rule hidden_response_loop_ok) (use Hn in \<open>auto simp: pph\<close>)
  have Bsplit: "B = BD * pow1 G (hs 0) s * MH"
    unfolding B_def BD_def MH_def H_def prod_list_split [OF D]
    by (simp only: ac_simps)
  have PZ: "PZ = PH * pow1 G MH (r1 * c)"
  proof -
    have "PZ = PH * prod_list (map (\<lambda>i. pow1 G (hs i) (m i * (r1 * c))) H)"
      unfolding PZ_def PH_def
      by (simp add: prod_list_pow_add [OF gl, symmetric] mult.assoc mult.left_commute mult.commute)
    then show ?thesis
      by (simp add: prod_list_pow_scale [OF gl] MH_def)
  qed
  have c3: "pow1 G A' (- zx) * pow1 G BD zr1 * pow1 G (hs 0) zsp * PZ * pow1 G Abar (- c) = T"
    unfolding zx_def zr1_def zsp_def PZ Abar_def Bsplit T_def
    by (rule schnorr_recompute [OF gl])
  have c4: "R3 * pow1 G (pow1 G v s) c = pow1 G v zs"
    unfolding R3_def zs_def by (rule did_check [OF gl])
  have ver: "verify G V idp = Inr \<lparr>valid = True, message = M_ok\<rparr>"
    using c1 c2 dcl c3 c4 c_def [symmetric]
    by (simp add: verify_def V set_policy_def verifier_setup_def Verifier_init_def idp_def pp
        Let_def hrl)
  have "route_verify G V (Some payload) = Inr (Inr \<lparr>valid = True, message = M_ok\<rparr>, 200)"
    using deser ver
    by (simp add: route_verify_def V set_policy_def verifier_setup_def Verifier_init_def)
  with build show ?thesis by blast
qed

text \<open>
  The fourth check of the verifier reads \<open>did_u\<close>, \<open>did_v\<close>, \<open>R3\<close>, \<open>c\<close> and \<open>z_s\<close> only,
  and the challenge does not cover \<open>did_v\<close> and \<open>z_s\<close>: in an accepted proof they can be
  replaced by \<open>did_u ^ t\<close> and \<open>k + c * t\<close> for any scalar \<open>t\<close>.
\<close>

lemma did_check_any_exponent:
  assumes gl: "group_laws G"
    and ok: "verify G V idp = Inr \<lparr>valid = True, message = M_ok\<rparr>"
    and R3: "p_R3 idp = pow1 G (p_did_u idp) k"
  shows "verify G V (idp\<lparr>p_did_v := pow1 G (p_did_u idp) t, p_z_s := k + p_c idp * t\<rparr>) =
           Inr \<lparr>valid = True, message = M_ok\<rparr>"
proof -
  have "p_R3 idp * pow1 G (pow1 G (p_did_u idp) t) (p_c idp) =
        pow1 G (p_did_u idp) (k + p_c idp * t)"
    by (simp add: R3 pow1_add [OF gl] pow1_pow [OF gl] mult.commute)
  then show ?thesis
    using ok
    by (auto simp: verify_def Let_def split: if_splits option.splits sum.splits)
qed

section \<open>The small group is a pairing group\<close>

lemma deser_ser_rat: "deser_rat (ser_rat q) = Some q"
proof -
  obtain a b where ab: "quotient_of q = (a, b)" by (cases "quotient_of q")
  then have "b > 0" "q = Fract a b"
    using quotient_of_denom_pos [OF ab] quotient_of_div [OF ab]
    by (simp_all add: Fract_of_int_quotient)
  then show ?thesis using ab by (simp add: ser_rat_def)
qed

lemma toy_group_laws: "group_laws toy_group"
  unfolding group_laws_def toy_group_def
  apply (simp add: one_expo_def)
  apply (intro conjI allI)
        apply (case_tac g; simp add: algebra_simps)
       apply (case_tac g; case_tac h; simp add: algebra_simps)
      apply (case_tac g; simp add: algebra_simps)
     apply (case_tac g; simp add: algebra_simps)
    apply (case_tac g; simp add: algebra_simps)
   apply (case_tac g; simp add: algebra_simps)
  apply (case_tac a; case_tac b; simp add: algebra_simps)
  done

lemma toy_wire_laws: "wire_laws toy_group"
  unfolding wire_laws_def toy_group_def
  apply (simp add: deser_ser_rat deser_expo_def)
  apply (rule allI)
  apply (case_tac g; simp add: deser_ser_rat)
  done

lemma in_1_2: "i \<in> {1..2::nat} \<longleftrightarrow> i = 1 \<or> i = 2"
  by auto

lemma in_1_2_Suc: "i \<in> {Suc 0..2} \<longleftrightarrow> i = 1 \<or> i = 2"
  by auto

lemma toy_slots_ok:
  "\<forall>i \<in> {1..2}. \<exists>a. toy_attributes i = Some a \<and> slot_ok toy_group (toy_hs i) a (toy_m i)"
proof -
  have "verify_nizk toy_group (toy_hs 2) (pow1 toy_group (toy_hs 2) 5)
          (snd (generate_nizk_proof toy_group (toy_hs 2) 5 7))"
    by (rule nizk_complete [OF toy_group_laws, where r = 7])
      (simp_all add: generate_nizk_proof_def Let_def nizk_challenge_def)
  then show ?thesis
    by (auto simp: in_1_2 toy_attributes_def slot_ok_def clear_attr_def blind_attr_def toy_m_def
        generate_nizk_proof_def Let_def)
qed

lemma toy_clear_slots_ok:
  "\<forall>i \<in> {1..2}. \<exists>a. toy_clear_attributes i = Some a \<and>
      slot_ok toy_group (toy_hs i) a (hash_zr toy_group (toy_vals i))"
  by (auto simp: in_1_2_Suc toy_clear_attributes_def slot_ok_def clear_attr_def toy_vals_def)





lemma route_issue_null_example:
  "route_issue toy_group no_text toy_issuer (request toy_raw_null) (- 2) 1 = Inl TypeError"
  by code_simp

section \<open>Claims about the ledger\<close>

text \<open>
  Claim C5. For every transaction list \<open>L\<close> and every index \<open>i\<close> with
  \<open>0 \<le> i < len(L)\<close>, \<open>build_merkle_root(L)\<close> returns a root and
  \<open>verify_proof(L[i], build_merkle_root(L), get_merkle_proof(L, i))\<close> is true; for a
  single-transaction list the root is the hash of the single leaf and the proof is empty.
\<close>

theorem merkle_soundness:
  "(0 \<le> i \<and> i < int (length L) \<longrightarrow>
      (\<exists>r. build_merkle_root E L = Inr r \<and>
           verify_proof E (L ! nat i) r (get_merkle_proof E L i))) \<and>
   build_merkle_root E [t] = Inr (hash_transaction E t) \<and>
   get_merkle_proof E [t] 0 = []"
proof (intro conjI impI)
  assume i: "0 \<le> i \<and> i < int (length L)"
  let ?cur = "map (hash_transaction E) L"
  have ni: "nat i < length L" using i by linarith
  then have "nat i < length ?cur" "verify_fold E (hash_transaction E (L ! nat i)) [] = ?cur ! nat i"
    by simp_all
  from proof_loop_root [OF this] obtain r rest where
    "root_loop E ?cur = r # rest"
    "verify_fold E (hash_transaction E (L ! nat i)) (proof_loop E ?cur [] (int (nat i))) = r"
    by blast
  then show "\<exists>r. build_merkle_root E L = Inr r \<and>
                verify_proof E (L ! nat i) r (get_merkle_proof E L i)"
    using i by (auto simp: build_merkle_root_def verify_proof_def get_merkle_proof_def)
next
  show "build_merkle_root E [t] = Inr (hash_transaction E t)"
    by (simp add: build_merkle_root_def root_loop.simps)
next
  show "get_merkle_proof E [t] 0 = []"
    by (simp add: get_merkle_proof_def proof_loop.simps)
qed

theorem merkle_soundness_witness:
  "(0 \<le> (2::int) \<and> 2 < int (length demo_txs)) \<and>
   (\<exists>r. build_merkle_root demo_env demo_txs = Inr r \<and>
        verify_proof demo_env (demo_txs ! nat 2) r (get_merkle_proof demo_env demo_txs 2))"
  using merkle_soundness [of 2 demo_txs demo_env]
  by (simp add: demo_txs_def)

text \<open>
  Claim C6. After any sequence of submit and mine operations starting from the genesis
  chain (no operation of the sequence raises), every block at an index \<open>i > 0\<close> has
  \<open>prev_hash\<close> equal to the hash of block \<open>i - 1\<close> and \<open>merkle_root\<close> equal to the Merkle
  root of its own transaction list; and a mine on a non-empty buffer succeeds, empties
  the buffer and puts exactly the buffered transactions into the block it appends.
\<close>

theorem chain_integrity_after_ops:
  "\<exists>bc0 bc. Blockchain_init E t0 clock0 = Inr bc0 \<and> run E ops bc0 = Inr bc \<and>
     (\<forall>i. 0 < i \<and> i < length (chain bc) \<longrightarrow>
        prev_hash (chain bc ! i) = block_hash E (chain bc ! (i - 1)) \<and>
        build_merkle_root E (transactions (chain bc ! i)) = Inr (merkle_root (chain bc ! i))) \<and>
     (pending_transactions bc \<noteq> [] \<longrightarrow>
        (\<exists>result b. mine_block E clock bc =
            Inr (result, bc\<lparr>chain := chain bc @ [b], pending_transactions := []\<rparr>) \<and>
            transactions b = pending_transactions bc))"
proof -
  from genesis_inv [of E t0 clock0] obtain bc0 where
    g: "Blockchain_init E t0 clock0 = Inr bc0" "chain bc0 \<noteq> []" "chain_integrity E bc0" by blast
  from run_inv [OF g(2,3), of ops] obtain bc where
    r: "run E ops bc0 = Inr bc" "chain bc \<noteq> []" "chain_integrity E bc" by blast
  have "pending_transactions bc \<noteq> [] \<longrightarrow>
        (\<exists>result b. mine_block E clock bc =
            Inr (result, bc\<lparr>chain := chain bc @ [b], pending_transactions := []\<rparr>) \<and>
            transactions b = pending_transactions bc)"
    using mine_block_nonempty [OF _ r(2), of E clock] by blast
  with g(1) r(1,3) show ?thesis
    by (auto simp: chain_integrity_def)
qed

theorem chain_integrity_after_ops_witness:
  "\<exists>bc0 bc. Blockchain_init demo_env 1 1 = Inr bc0 \<and> run demo_env demo_ops bc0 = Inr bc \<and>
     (0 < (1::nat) \<and> 1 < length (chain bc)) \<and>
     prev_hash (chain bc ! 1) = block_hash demo_env (chain bc ! 0) \<and>
     build_merkle_root demo_env (transactions (chain bc ! 1)) = Inr (merkle_root (chain bc ! 1)) \<and>
     pending_transactions bc \<noteq> [] \<and>
     (\<exists>result b. mine_block demo_env 4 bc =
         Inr (result, bc\<lparr>chain := chain bc @ [b], pending_transactions := []\<rparr>) \<and>
         transactions b = pending_transactions bc)"
proof -
  from chain_integrity_after_ops [of demo_env 1 1 demo_ops 4] obtain bc0 bc where
    a: "Blockchain_init demo_env 1 1 = Inr bc0" "run demo_env demo_ops bc0 = Inr bc"
    and b: "\<forall>i. 0 < i \<and> i < length (chain bc) \<longrightarrow>
        prev_hash (chain bc ! i) = block_hash demo_env (chain bc ! (i - 1)) \<and>
        build_merkle_root demo_env (transactions (chain bc ! i)) =
          Inr (merkle_root (chain bc ! i))"
    and c: "pending_transactions bc \<noteq> [] \<longrightarrow>
        (\<exists>result b. mine_block demo_env 4 bc =
            Inr (result, bc\<lparr>chain := chain bc @ [b], pending_transactions := []\<rparr>) \<and>
            transactions b = pending_transactions bc)"
    by blast
  have e: "length (chain bc) = 2 \<and> pending_transactions bc \<noteq> []"
    using a
    by (auto simp: Blockchain_init_def create_genesis_block_def Block_init_def genesis_tx_def
        demo_ops_def add_transaction_def mine_block_def block_hash_def to_header_def
        build_merkle_root_def demo_env_def root_loop.simps root_level.simps
        hash_transaction_def hash_pair_def py_def Let_def)
  then have "0 < (1::nat) \<and> 1 < length (chain bc)" by simp
  with a b c e show ?thesis by (intro exI [of _ bc0] exI [of _ bc]) auto
qed

text \<open>
  Claim C7. Calling mine when the pending buffer is empty is a no-op: \<open>mine_block\<close>
  returns the dictionary that holds only the buffer-is-empty message, the route answers
  with that body and HTTP status 400, and the state of the ledger (the chain, hence its
  length, and the buffer) is the one before the call.
\<close>

theorem empty_mine_noop:
  assumes "pending_transactions bc = []"
  shows "\<exists>result bc'. route_mine_block E clock bc = Inr ((result, 400), bc') \<and>
           mine_block E clock bc = Inr (result, bc') \<and>
           result = [(py ''message'', PStr msg_buffer_empty)] \<and>
           bc' = bc \<and> length (chain bc') = length (chain bc)"
  using assms
  by (simp add: route_mine_block_def mine_block_def dict_get_def wufa_in_empty)

theorem empty_mine_noop_witness:
  "pending_transactions demo_chain = [] \<and>
   (\<exists>result bc'. route_mine_block demo_env 5 demo_chain = Inr ((result, 400), bc') \<and>
      mine_block demo_env 5 demo_chain = Inr (result, bc') \<and>
      result = [(py ''message'', PStr msg_buffer_empty)] \<and>
      bc' = demo_chain \<and> length (chain bc') = length (chain demo_chain))"
proof -
  have h: "pending_transactions demo_chain = []" by (simp add: demo_chain_def)
  from empty_mine_noop [OF h, of demo_env 5] h show ?thesis by simp
qed

text \<open>
  Claim C9, as amended. For every call \<open>submit(u, v)\<close> the transaction \<open>{u, v}\<close> is
  appended to the pending buffer, whatever the buffer holds already (so a repeated
  \<open>(u, v)\<close> is appended again), and the chain is untouched. The call returns the
  message, the transaction itself and the new pending count; the index at which the
  transaction now sits is the pending count minus one and is not a field of the result.
  The route \<open>/transaction/new\<close> answers a body with string fields \<open>u\<close> and \<open>v\<close> with
  that result and status 201.
\<close>

theorem add_transaction_appends:
  "\<exists>result bc'. add_transaction u v bc = (result, bc') \<and>
     pending_transactions bc' = pending_transactions bc @ [\<lparr>tx_u = u, tx_v = v\<rparr>] \<and>
     chain bc' = chain bc \<and>
     result = [(py ''message'', PStr msg_added),
               (py ''transaction'', PDict [(py ''u'', PStr u), (py ''v'', PStr v)]),
               (py ''pending_count'', PInt (int (length (pending_transactions bc)) + 1))] \<and>
     pending_transactions bc' ! length (pending_transactions bc) = \<lparr>tx_u = u, tx_v = v\<rparr> \<and>
     route_new_transaction repr (Some [(py ''u'', PStr u), (py ''v'', PStr v)]) bc =
       Inr ((result, 201), bc')"
  by (simp add: add_transaction_def Let_def tx_dict_def route_new_transaction_def
      dict_get_def py_str_def py_def)

theorem add_transaction_appends_witness:
  "\<exists>result bc'.
     add_transaction (py ''A'') (py ''B'')
       \<lparr>chain = [], pending_transactions = [\<lparr>tx_u = py ''A'', tx_v = py ''B''\<rparr>]\<rparr> = (result, bc') \<and>
     pending_transactions bc' =
       [\<lparr>tx_u = py ''A'', tx_v = py ''B''\<rparr>, \<lparr>tx_u = py ''A'', tx_v = py ''B''\<rparr>] \<and>
     result = [(py ''message'', PStr msg_added),
               (py ''transaction'', PDict [(py ''u'', PStr (py ''A'')), (py ''v'', PStr (py ''B''))]),
               (py ''pending_count'', PInt 2)] \<and>
     route_new_transaction (\<lambda>x. [])
         (Some [(py ''u'', PStr (py ''A'')), (py ''v'', PStr (py ''B''))])
         \<lparr>chain = [], pending_transactions = [\<lparr>tx_u = py ''A'', tx_v = py ''B''\<rparr>]\<rparr> =
       Inr ((result, 201), bc')"
  using add_transaction_appends [of "py ''A''" "py ''B''"
      "\<lparr>chain = [], pending_transactions = [\<lparr>tx_u = py ''A'', tx_v = py ''B''\<rparr>]\<rparr>" "\<lambda>x. []"]
  by auto

text \<open>
  The claim as it was stated fails: the first submit on an empty buffer puts the
  transaction at index 0, and the result has the keys \<open>message\<close>, \<open>transaction\<close> and
  \<open>pending_count\<close> only, none of which holds the value 0.
\<close>

theorem add_transaction_returns_no_index:
  "pending_transactions
     (snd (add_transaction (py ''Alice'') (py ''Bob'') \<lparr>chain = [], pending_transactions = []\<rparr>)) ! 0
     = \<lparr>tx_u = py ''Alice'', tx_v = py ''Bob''\<rparr> \<and>
   map fst (fst (add_transaction (py ''Alice'') (py ''Bob'')
                  \<lparr>chain = [], pending_transactions = []\<rparr>))
     = [py ''message'', py ''transaction'', py ''pending_count''] \<and>
   PInt 0 \<notin> snd ` set (fst (add_transaction (py ''Alice'') (py ''Bob'')
                            \<lparr>chain = [], pending_transactions = []\<rparr>))"
  by (simp add: add_transaction_def Let_def tx_dict_def)

text \<open>
  Claim C10. When the block at a valid height holds a transaction equal to the queried
  \<open>(u, v)\<close>, once or several times, \<open>get_spv_proof\<close> returns an envelope whose
  \<open>tx_index\<close> is the smallest index at which the block's transaction list holds
  \<open>{u, v}\<close>, and whose Merkle proof is the one generated for that index.
\<close>

theorem spv_first_match:
  assumes "0 \<le> h" "h < int (length (chain bc))"
    and "\<exists>i < length (transactions (chain bc ! nat h)).
           transactions (chain bc ! nat h) ! i = \<lparr>tx_u = u, tx_v = v\<rparr>"
  shows "\<exists>r. get_spv_proof E bc h u v = Some r \<and>
             spv_tx_index r < length (transactions (chain bc ! nat h)) \<and>
             transactions (chain bc ! nat h) ! spv_tx_index r = \<lparr>tx_u = u, tx_v = v\<rparr> \<and>
             (\<forall>j < spv_tx_index r.
                transactions (chain bc ! nat h) ! j \<noteq> \<lparr>tx_u = u, tx_v = v\<rparr>) \<and>
             spv_merkle_proof r =
               get_merkle_proof E (transactions (chain bc ! nat h)) (int (spv_tx_index r))"
proof -
  let ?txs = "transactions (chain bc ! nat h)"
  from assms(3) have "\<lparr>tx_u = u, tx_v = v\<rparr> \<in> set ?txs" by (auto simp: in_set_conv_nth)
  from find_tx_index_exists [OF this, of 0] obtain j where
    j: "find_tx_index ?txs u v 0 = Some j" by blast
  from find_tx_index_Some [OF j] j assms(1,2) show ?thesis
    by (simp add: get_spv_proof_def Let_def)
qed

theorem spv_first_match_witness:
  "(0 \<le> (1::int) \<and> 1 < int (length (chain demo_chain)) \<and>
    (\<exists>i < length (transactions (chain demo_chain ! nat 1)).
        transactions (chain demo_chain ! nat 1) ! i = \<lparr>tx_u = py ''A'', tx_v = py ''B''\<rparr>)) \<and>
   (\<exists>r. get_spv_proof demo_env demo_chain 1 (py ''A'') (py ''B'') = Some r \<and>
        spv_tx_index r = 0 \<and>
        spv_merkle_proof r = get_merkle_proof demo_env demo_txs 0)"
proof -
  have h1: "0 \<le> (1::int)" by simp
  have h2: "1 < int (length (chain demo_chain))" by (simp add: demo_chain_def)
  have t: "transactions (chain demo_chain ! nat 1) = demo_txs" by (simp add: demo_chain_def)
  have h3: "\<exists>i < length (transactions (chain demo_chain ! nat 1)).
      transactions (chain demo_chain ! nat 1) ! i = \<lparr>tx_u = py ''A'', tx_v = py ''B''\<rparr>"
    unfolding t by (rule exI [of _ 2]) (simp add: demo_txs_def)
  from spv_first_match [OF h1 h2 h3, of demo_env] obtain r where
    r: "get_spv_proof demo_env demo_chain 1 (py ''A'') (py ''B'') = Some r"
      "\<forall>j < spv_tx_index r. transactions (chain demo_chain ! nat 1) ! j
           \<noteq> \<lparr>tx_u = py ''A'', tx_v = py ''B''\<rparr>"
      "spv_merkle_proof r =
         get_merkle_proof demo_env (transactions (chain demo_chain ! nat 1)) (int (spv_tx_index r))"
    by blast
  have "spv_tx_index r = 0"
  proof (rule ccontr)
    assume "spv_tx_index r \<noteq> 0"
    then have "0 < spv_tx_index r" by simp
    with r(2) have "transactions (chain demo_chain ! nat 1) ! 0
        \<noteq> \<lparr>tx_u = py ''A'', tx_v = py ''B''\<rparr>" by blast
    then show False by (simp add: demo_chain_def demo_txs_def)
  qed
  with r h1 h2 h3 t show ?thesis by simp
qed

section \<open>Claims about the credential protocol\<close>

text \<open>
  Claim C1, as amended. For every credential that \<open>Issuer.issue\<close> returns over a well-formed
  attribute vector (each slot the cleartext value of the holder's attribute, or a commitment
  to its hash with an accepted proof) when \<open>sk + x \<noteq> 0\<close>, every disclosure set \<open>D\<close> and a
  DID generated from the credential's \<open>s\<close>: if the policy of the verifier asks only for
  disclosed attributes and is satisfied by their values, and the verifier is set up with
  the public parameters of the issuer, then \<open>build_identity_proof\<close> returns a proof, and the
  route \<open>/verify\<close> answers it with \<open>valid = true\<close> and status 200, whatever random scalars
  the holder draws.
\<close>

theorem disclosure_correct:
  assumes gl: "group_laws G" and wl: "wire_laws G"
    and st: "iss_PP (issuer_setup G n g1 g2 sk hp hs) = Some PP"
    and slots: "\<forall>i \<in> {1..n}. \<exists>a. issued i = Some a \<and> slot_ok G (hs i) a (hash_zr G (vals i))"
    and iss: "issue G (issuer_setup G n g1 g2 sk hp hs) issued x s = Inr (Some cred)"
    and nz: "sk + x \<noteq> 0"
    and attrs: "\<forall>i \<in> {1..n}. attributes i = Some (vals i)"
    and did: "generate_did G v \<lparr>u_PP = PP, u_attributes = Some attributes,
                 u_credential = Some cred, u_did = None\<rparr> = Inr (d, usr)"
    and D: "distinct D" "set D \<subseteq> {1..n}"
    and V: "V = set_policy policy (verifier_setup PP Verifier_init)"
    and pol: "\<forall>(k, req) \<in> set policy. k \<in> set D \<and> vals k = req"
  shows "\<exists>payload usr'. build_identity_proof G rnd D usr = Inr (payload, usr') \<and>
           route_verify G V (Some payload) = Inr (Inr \<lparr>valid = True, message = M_ok\<rparr>, 200)"
proof -
  let ?B = "g1 * pow1 G (hs 0) s *
            prod_list (map (\<lambda>i. pow1 G (hs i) (hash_zr G (vals i))) [1..<n + 1])"
  let ?e = "zr_div G 1 (sk + x)"
  from issue_credential [OF gl slots, of g1 g2 sk hp x s] iss
  have cred: "cred = \<lparr>cred_A = pow1 G ?B ?e, cred_x = x, cred_s = s\<rparr>" by simp
  have e: "?e * (sk + x) = 1"
    using nz by (simp add: zr_div_nonzero [OF gl])
  have "pow1 G (cred_A cred) (sk + cred_x cred) = pow1 G ?B (?e * (sk + x))"
    by (simp add: cred pow1_pow [OF gl])
  then have valid: "pow1 G (cred_A cred) (sk + cred_x cred) =
      g1 * pow1 G (hs 0) (cred_s cred) *
      prod_list (map (\<lambda>i. pow1 G (hs i) (hash_zr G (vals i))) [1..<n + 1])"
    by (simp add: e pow1_one [OF gl] cred)
  from disclosure_core [OF gl wl st attrs valid did D V pol]
  show ?thesis .
qed

theorem disclosure_correct_witness:
  "group_laws toy_group \<and> wire_laws toy_group \<and> distinct [1::nat] \<and>
   iss_PP toy_issuer = Some toy_PP \<and>
   issue toy_group toy_issuer toy_clear_attributes (- 2) 3 = Inr (Some toy_cred) \<and>
   (3::rat) + (- 2) \<noteq> 0 \<and>
   generate_did toy_group (Expo 2) toy_user0 = Inr (\<lparr>did_u = Expo 6, did_v = Expo 2\<rparr>, toy_user) \<and>
   (\<exists>payload usr'. build_identity_proof toy_group toy_rnd [1] toy_user = Inr (payload, usr') \<and>
      route_verify toy_group toy_verifier (Some payload) =
        Inr (Inr \<lparr>valid = True, message = M_ok\<rparr>, 200))"
proof -
  have st: "iss_PP (issuer_setup toy_group 2 (Expo 1) (Expo 1) 3 (Expo 5) toy_hs) = Some toy_PP"
    by (simp add: issuer_setup_def toy_PP_def toy_group_def Let_def)
  have iss: "issue toy_group (issuer_setup toy_group 2 (Expo 1) (Expo 1) 3 (Expo 5) toy_hs)
      toy_clear_attributes (- 2) 3 = Inr (Some toy_cred)"
    by code_simp
  have nz: "(3::rat) + (- 2) \<noteq> 0" by simp
  have attrs: "\<forall>i \<in> {1..2}. toy_user_attributes i = Some (toy_vals i)"
    by (auto simp: in_1_2_Suc toy_user_attributes_def toy_vals_def)
  have did: "generate_did toy_group (Expo 2) \<lparr>u_PP = toy_PP, u_attributes = Some toy_user_attributes,
      u_credential = Some toy_cred, u_did = None\<rparr> = Inr (\<lparr>did_u = Expo 6, did_v = Expo 2\<rparr>, toy_user)"
    by (simp add: generate_did_def toy_user_def toy_user0_def toy_cred_def toy_group_def Let_def)
  have D: "distinct [1::nat]" "set [1::nat] \<subseteq> {1..2}" by simp_all
  have pol: "\<forall>(k, req) \<in> set [(1::nat, py ''alice'')]. k \<in> set [1] \<and> toy_vals k = req"
    by (simp add: toy_vals_def)
  from disclosure_correct [OF toy_group_laws toy_wire_laws st toy_clear_slots_ok iss nz attrs
      did D toy_verifier_def pol, of toy_rnd] did st iss nz toy_group_laws toy_wire_laws
  show ?thesis by (simp add: toy_user0_def toy_issuer_def)
qed

text \<open>
  The claim as it was stated fails when \<open>sk + x = 0\<close>: the issuer of the small group has
  \<open>sk = 3\<close>; with \<open>x = - 3\<close> it returns a credential over a well-formed vector, the holder
  builds a proof from it that discloses the attribute the policy asks for, and the verifier
  answers that the pairing check failed, with status 400.
\<close>

theorem disclosure_fails_at_zero:
  "iss_sk toy_issuer = Some 3 \<and> (3::rat) + (- 3) = 0 \<and>
   issue toy_group toy_issuer toy_clear_attributes (- 3) 1 =
     Inr (Some \<lparr>cred_A = Expo 0, cred_x = - 3, cred_s = 1\<rparr>) \<and>
   (case generate_did toy_group (Expo 2)
           \<lparr>u_PP = toy_PP, u_attributes = Some toy_user_attributes,
              u_credential = Some \<lparr>cred_A = Expo 0, cred_x = - 3, cred_s = 1\<rparr>, u_did = None\<rparr> of
      Inl e \<Rightarrow> False
    | Inr (d, usr) \<Rightarrow>
        (case build_identity_proof toy_group toy_rnd [1] usr of
           Inl e \<Rightarrow> False
         | Inr (payload, usr') \<Rightarrow>
             route_verify toy_group toy_verifier (Some payload) =
               Inr (Inr \<lparr>valid = False, message = M_pairing_failed\<rparr>, 400)))"
  by code_simp

text \<open>
  Claim C2, as amended. For every attribute vector of exactly \<open>n\<close> slots, each a cleartext
  value or a commitment \<open>h_i ^ m_i\<close> with an accepted proof, and every \<open>x\<close> with
  \<open>sk + x \<noteq> 0\<close>, \<open>Issuer.issue\<close> returns a credential \<open>(A, x, s)\<close> that satisfies
  \<open>pair(A, g2 ^ x * pk) = pair(g1 * h0 ^ s * \<Prod> h_i ^ m_i, g2)\<close>, with \<open>m_i\<close> the hash of
  the value for a cleartext slot.
\<close>

theorem issuance_correct:
  assumes "group_laws G"
    and "\<forall>i \<in> {1..n}. \<exists>a. attributes i = Some a \<and> slot_ok G (hs i) a (m i)"
    and "sk + x \<noteq> 0"
  shows "\<exists>A PP. iss_PP (issuer_setup G n g1 g2 sk hp hs) = Some PP \<and>
           issue G (issuer_setup G n g1 g2 sk hp hs) attributes x s =
             Inr (Some \<lparr>cred_A = A, cred_x = x, cred_s = s\<rparr>) \<and>
           pair G A (pow2 G (pp_g2 PP) x * pp_pk PP) =
             pair G (pp_g1 PP * pow1 G (hs 0) s *
                       prod_list (map (\<lambda>i. pow1 G (hs i) (m i)) [1..<n + 1]))
                    (pp_g2 PP)"
proof -
  let ?PP = "\<lparr>pp_g1 = g1, pp_g2 = g2, pp_pk = pow2 G g2 sk, pp_n = n, pp_hp = hp,
              pp_h = (\<lambda>i. if i \<le> n then Some (hs i) else None)\<rparr>"
  let ?B = "g1 * pow1 G (hs 0) s * prod_list (map (\<lambda>i. pow1 G (hs i) (m i)) [1..<n + 1])"
  let ?e = "zr_div G 1 (sk + x)"
  have "\<forall>i \<in> set [1..<n + 1]. \<exists>a. pp_h ?PP i = Some (hs i) \<and> attributes i = Some a \<and>
          slot_ok G (hs i) a (m i)"
    using assms(2) by auto
  from issue_loop_ok [OF this, of "g1 * pow1 G (hs 0) s"]
  have loop: "issue_loop G ?PP attributes [1..<n + 1] (g1 * pow1 G (hs 0) s) = Inr (Some ?B)" .
  have iss: "issue G (issuer_setup G n g1 g2 sk hp hs) attributes x s =
      Inr (Some \<lparr>cred_A = pow1 G ?B ?e, cred_x = x, cred_s = s\<rparr>)"
    using loop by (simp add: issue_def issuer_setup_def Let_def)
  have e: "?e * (x + sk) = 1"
    using assms(3) by (simp add: zr_div_nonzero [OF assms(1)] add.commute)
  have "pair G (pow1 G ?B ?e) (pow2 G g2 x * pow2 G g2 sk) =
        pair G (pow1 G ?B ?e) (pow2 G g2 (x + sk))"
    by (simp add: pow2_add [OF assms(1)])
  also have "\<dots> = pair G (pow1 G (pow1 G ?B ?e) (x + sk)) g2"
    by (simp add: pair_slide [OF assms(1)])
  also have "\<dots> = pair G ?B g2"
    by (simp add: pow1_pow [OF assms(1)] e pow1_one [OF assms(1)])
  finally show ?thesis using iss
    by (simp add: issuer_setup_def Let_def)
qed

theorem issuance_correct_witness:
  "group_laws toy_group \<and>
   (\<exists>a. toy_attributes 1 = Some a \<and> slot_ok toy_group (toy_hs 1) a (toy_m 1)) \<and>
   (\<exists>a. toy_attributes 2 = Some a \<and> slot_ok toy_group (toy_hs 2) a (toy_m 2)) \<and>
   (3::rat) + (- 2) \<noteq> 0 \<and>
   (\<exists>A PP. iss_PP toy_issuer = Some PP \<and>
      issue toy_group toy_issuer toy_attributes (- 2) 1 =
        Inr (Some \<lparr>cred_A = A, cred_x = - 2, cred_s = 1\<rparr>) \<and>
      pair toy_group A (pow2 toy_group (pp_g2 PP) (- 2) * pp_pk PP) =
        pair toy_group (pp_g1 PP * pow1 toy_group (toy_hs 0) 1 *
                  prod_list (map (\<lambda>i. pow1 toy_group (toy_hs i) (toy_m i)) [1..<2 + 1]))
               (pp_g2 PP))"
proof -
  have h: "(3::rat) + (- 2) \<noteq> 0" by simp
  have s1: "\<exists>a. toy_attributes 1 = Some a \<and> slot_ok toy_group (toy_hs 1) a (toy_m 1)"
    using toy_slots_ok by (simp add: in_1_2_Suc)
  have s2: "\<exists>a. toy_attributes 2 = Some a \<and> slot_ok toy_group (toy_hs 2) a (toy_m 2)"
    using toy_slots_ok by (simp add: in_1_2_Suc)
  from issuance_correct [OF toy_group_laws toy_slots_ok h, of "Expo 1" "Expo 1" "Expo 5" 1]
  have "\<exists>A PP. iss_PP toy_issuer = Some PP \<and>
      issue toy_group toy_issuer toy_attributes (- 2) 1 =
        Inr (Some \<lparr>cred_A = A, cred_x = - 2, cred_s = 1\<rparr>) \<and>
      pair toy_group A (pow2 toy_group (pp_g2 PP) (- 2) * pp_pk PP) =
        pair toy_group (pp_g1 PP * pow1 toy_group (toy_hs 0) 1 *
                  prod_list (map (\<lambda>i. pow1 toy_group (toy_hs i) (toy_m i)) [1..<2 + 1]))
               (pp_g2 PP)"
    by (simp add: toy_issuer_def)
  with toy_group_laws s1 s2 h show ?thesis by (intro conjI)
qed

text \<open>
  The claim as it was stated fails when \<open>sk + x = 0\<close>: the issuer of the small group has
  \<open>sk = 3\<close>; with \<open>x = - 3\<close> it returns a credential, and the two pairings differ.
\<close>

theorem issuance_breaks_at_zero:
  "issue toy_group toy_issuer toy_attributes (- 3) 1 =
     Inr (Some \<lparr>cred_A = Expo 0, cred_x = - 3, cred_s = 1\<rparr>) \<and>
   pair toy_group (Expo 0) (pow2 toy_group (Expo 1) (- 3) * pow2 toy_group (Expo 1) 3) \<noteq>
   pair toy_group (Expo 1 * pow1 toy_group (toy_hs 0) 1 *
                    prod_list (map (\<lambda>i. pow1 toy_group (toy_hs i) (toy_m i)) [1..<2 + 1]))
        (Expo 1)"
  by code_simp




text \<open>
  Claim C4. The fourth check of \<open>Verifier.verify\<close> does not bind the DID to the credential.
  The holder of the small group has a credential with \<open>s = 3\<close> and exposes \<open>did_u = 2\<close>,
  \<open>did_v = 6\<close> (as logarithms), and its proof is accepted. The same proof with \<open>did_v\<close>
  replaced by \<open>did_u ^ 5\<close> and \<open>z_s\<close> by \<open>k_s + c * 5 = 69\<close> is accepted too, at the same
  nonzero challenge, although \<open>did_v\<close> is not \<open>did_u ^ 3\<close>.
\<close>

theorem did_binding_forged:
  "cred_s toy_cred = 3 \<and> u_credential toy_user = Some toy_cred \<and>
   (case build_identity_proof toy_group toy_rnd [1] toy_user of
      Inl e \<Rightarrow> False
    | Inr (payload, usr) \<Rightarrow>
        route_verify toy_group toy_verifier (Some payload) =
          Inr (Inr \<lparr>valid = True, message = M_ok\<rparr>, 200) \<and>
        deserialize_g1 toy_group (pl_did_u payload) = Some (Expo 2) \<and>
        deserialize_g1 toy_group (pl_did_v payload) = Some (Expo 6) \<and>
        route_verify toy_group toy_verifier
          (Some (payload\<lparr>pl_did_v := serialize_g1 toy_group (Expo 10),
                          pl_z_s := serialize_zr toy_group 69\<rparr>)) =
          Inr (Inr \<lparr>valid = True, message = M_ok\<rparr>, 200)) \<and>
   Expo 6 = pow1 toy_group (Expo 2) 3 \<and>
   Expo 10 = pow1 toy_group (Expo 2) 5 \<and>
   Expo 10 \<noteq> pow1 toy_group (Expo 2) 3"
  by code_simp




end
